theory Spec2Isabelle
  imports Main "HOL-Library.Char_ord" "HOL-Library.List_Lexorder"
begin

section \<open>Keys, comparison and binary search (src/index.js)\<close>

text \<open>
  Keys are utf8 strings (the constructor of \<open>CacacheLevel\<close> fixes \<open>keyEncoding: 'utf8'\<close>),
  compared by JavaScript's \<open><\<close> and \<open>></\<close> on strings: lexicographically, unit by unit.
  They are modelled as \<open>string\<close> with the lexicographic order of the library.

  A bound handed to \<open>binarySearch\<close> is either a key or the symbol \<open>kNone\<close> (the reverse
  branch of \<open>parseBounds\<close> searches for \<open>upperBound\<close> even when it is \<open>kNone\<close>).
  An array element read by index is a key, or \<open>undefined\<close> when the index is out of range.
\<close>

datatype bound = KNone | Key string

text \<open>
  \<open>keys[i]\<close> in JavaScript: the element when \<open>0 \<le> i < keys.length\<close>, else \<open>undefined\<close>
  (\<open>None\<close>).
\<close>

definition js_index :: "'a list \<Rightarrow> int \<Rightarrow> 'a option" where
  "js_index xs i = (if 0 \<le> i \<and> i < int (length xs) then Some (xs ! nat i) else None)"

text \<open>
  \<open>compare (a, b)\<close>. The result is a JavaScript number; \<open>None\<close> stands for \<open>NaN\<close>.
  \<^item> \<open>a\<close> a string, \<open>b\<close> a string: \<open>-1\<close>, \<open>1\<close> or \<open>0\<close>.
  \<^item> \<open>a\<close> a string, \<open>b\<close> \<open>undefined\<close>: \<open>a < undefined\<close> and \<open>a > undefined\<close> are both
    false, so the result is \<open>0\<close>.
  \<^item> \<open>a\<close> the symbol \<open>kNone\<close>: \<open>typeof a\<close> is not \<open>'string'\<close>; both \<open>byteLength\<close>s are
    \<open>undefined\<close>, the loop does not run and \<open>undefined - undefined\<close> is \<open>NaN\<close>.
    (With \<open>b\<close> \<open>undefined\<close> the source would throw on \<open>b.byteLength\<close>; \<open>binarySearch\<close>
    only reads elements in range, so that call never happens. The model gives \<open>NaN\<close>.)
\<close>

fun compare :: "bound \<Rightarrow> string option \<Rightarrow> int option" where
  "compare (Key a) (Some b) = Some (if a < b then - 1 else if a > b then 1 else 0)"
| "compare (Key a) None = Some 0"
| "compare KNone b = None"

text \<open>The comparisons \<open>cmp > 0\<close> and \<open>cmp < 0\<close>; both are false on \<open>NaN\<close>.\<close>

definition js_gt0 :: "int option \<Rightarrow> bool" where
  "js_gt0 c = (case c of None \<Rightarrow> False | Some x \<Rightarrow> x > 0)"

definition js_lt0 :: "int option \<Rightarrow> bool" where
  "js_lt0 c = (case c of None \<Rightarrow> False | Some x \<Rightarrow> x < 0)"

text \<open>
  \<open>binarySearch (ar, el, compare)\<close>: the \<open>while (m <= n)\<close> loop on the pair \<open>(m, n)\<close>,
  with \<open>k = (n + m) >> 1\<close>. It returns the index found, or \<open>-m - 1\<close>.
\<close>

function binarySearch_loop :: "string list \<Rightarrow> bound \<Rightarrow> int \<Rightarrow> int \<Rightarrow> int" where
  "binarySearch_loop ar el m n =
     (if m \<le> n then
        (let k = (n + m) div 2;
             cmp = compare el (js_index ar k)
         in if js_gt0 cmp then binarySearch_loop ar el (k + 1) n
            else if js_lt0 cmp then binarySearch_loop ar el m (k - 1)
            else k)
      else - m - 1)"
  by pat_completeness auto
termination
  by (relation "measure (\<lambda>(ar, el, m, n). nat (n - m + 1))") auto

declare binarySearch_loop.simps [simp del]

definition binarySearch :: "string list \<Rightarrow> bound \<Rightarrow> int" where
  "binarySearch ar el = binarySearch_loop ar el 0 (int (length ar) - 1)"

section \<open>Range options and parseBounds\<close>

text \<open>
  The iterator options the code reads: \<open>reverse\<close> and the four range options. A range
  option is present with a key as its value (\<open>Some k\<close>) or absent (\<open>None\<close>):
  \<open>'gt' in options\<close> is \<open>opt_gt options \<noteq> None\<close>.
\<close>

record options =
  opt_reverse :: bool
  opt_gt :: "string option"
  opt_gte :: "string option"
  opt_lt :: "string option"
  opt_lte :: "string option"

record bounds =
  b_start :: int
  b_end :: int
  b_lowerBound :: bound
  b_upperBound :: bound

definition has :: "'a option \<Rightarrow> bool" where
  "has v = (v \<noteq> None)"

text \<open>\<open>'a' in options ? options.a : 'b' in options ? options.b : kNone\<close>\<close>

definition pick :: "string option \<Rightarrow> string option \<Rightarrow> bound" where
  "pick a b = (case a of Some x \<Rightarrow> Key x | None \<Rightarrow> (case b of Some y \<Rightarrow> Key y | None \<Rightarrow> KNone))"

definition parseBounds :: "string list \<Rightarrow> options \<Rightarrow> bounds" where
  "parseBounds keys opts =
    (let len = int (length keys) in
     if \<not> opt_reverse opts then
       (let lowerBound = pick (opt_gte opts) (opt_gt opts);
            upperBound = pick (opt_lte opts) (opt_lt opts);
            start =
              (if upperBound = KNone then 0
               else let s = binarySearch keys upperBound in
                    if s < 0 then (if s = - 1 then 0 else - s)
                    else if has (opt_gt opts) then s + 1 else s);
            end' =
              (if upperBound \<noteq> KNone then
                 (let e = binarySearch keys upperBound in
                  if e < 0 then (if e = - 1 then len - 1 else - e - 1)
                  else if has (opt_lt opts) then e - 1 else e)
               else len - 1)
        in \<lparr>b_start = start, b_end = end', b_lowerBound = lowerBound, b_upperBound = upperBound\<rparr>)
     else
       (let lowerBound = pick (opt_lte opts) (opt_lt opts);
            upperBound = pick (opt_gte opts) (opt_gt opts);
            start =
              (if lowerBound = KNone then len - 1
               else let s = binarySearch keys upperBound;
                        s1 = (if s < 0 then (if s = - 1 then len - 1 else - s - 1) else s)
                    in if has (opt_lt opts) then s1 - 1 else s1);
            end' =
              (if upperBound \<noteq> KNone then
                 (let e = binarySearch keys upperBound;
                      e1 = (if e < 0 then (if e = - 1 then len - 1 else \<bar>e\<bar>) else e)
                  in if has (opt_gt opts) then e1 + 1 else e1)
               else len - 1)
        in \<lparr>b_start = start, b_end = end', b_lowerBound = lowerBound, b_upperBound = upperBound\<rparr>))"

text \<open>
  \<open>keys.splice (start, deleteCount)\<close> returns the removed elements. A negative \<open>start\<close>
  counts from the end (\<open>max (len + start) 0\<close>), a \<open>start\<close> beyond the end is \<open>len\<close>; the
  count is clamped to \<open>[0, len - actualStart]\<close>.
\<close>

definition splice :: "'a list \<Rightarrow> int \<Rightarrow> int \<Rightarrow> 'a list" where
  "splice xs start deleteCount =
    (let len = int (length xs);
         actualStart = (if start < 0 then max (len + start) 0 else min start len);
         actualDeleteCount = min (max deleteCount 0) (len - actualStart)
     in take (nat actualDeleteCount) (drop (nat actualStart) xs))"

section \<open>The backing store and the outcome of an operation\<close>

text \<open>
  Errors the code meets or makes: \<open>new Error (msg)\<close>, a \<open>TypeError\<close> thrown by the
  runtime on reading a property of \<open>undefined\<close>, and an error of the backing store that
  carries an \<open>err.code\<close> (\<open>fetch\<close> tests it against \<open>'ENOENT'\<close>).
\<close>

datatype error = Error string | TypeError | CodedError string

text \<open>
  The backing store \<open>cacache\<close> is not part of the repository. It is taken as a parameter:
  what each call resolves to or rejects with, and the log of the calls issued so far.
  The cache location is not modelled: the iterator methods pass \<open>this[kLocation]\<close>, a
  field that \<open>kInit\<close> never sets on the iterator (it reads \<open>db[kLocation]\<close> into a local
  constant), and what \<open>cacache.get\<close> makes of that argument is part of \<open>get_result\<close>.
  \<open>ls_result\<close> is the array of the entries' keys,
  as the \<open>entries.map (entry => entry.key)\<close> of \<open>kInit\<close> reads it; \<open>get_result k\<close> is the
  \<open>data\<close> field of what \<open>cacache.get\<close> resolves to.
\<close>

datatype call = Ls | Get string | Put string | RmContent string

record 'v cacache =
  ls_result :: "error + string list"
  get_result :: "string \<Rightarrow> error + 'v"
  put_result :: "string \<Rightarrow> 'v \<Rightarrow> error option"
  rm_content_result :: "string \<Rightarrow> error option"
  calls :: "call list"

definition cacache_ls :: "'v cacache \<Rightarrow> (error + string list) \<times> 'v cacache" where
  "cacache_ls c = (ls_result c, c\<lparr>calls := calls c @ [Ls]\<rparr>)"

definition cacache_get :: "string \<Rightarrow> 'v cacache \<Rightarrow> (error + 'v) \<times> 'v cacache" where
  "cacache_get k c = (get_result c k, c\<lparr>calls := calls c @ [Get k]\<rparr>)"

definition cacache_put :: "string \<Rightarrow> 'v \<Rightarrow> 'v cacache \<Rightarrow> error option \<times> 'v cacache" where
  "cacache_put k v c = (put_result c k v, c\<lparr>calls := calls c @ [Put k]\<rparr>)"

definition cacache_rm_content :: "string \<Rightarrow> 'v cacache \<Rightarrow> error option \<times> 'v cacache" where
  "cacache_rm_content k c = (rm_content_result c k, c\<lparr>calls := calls c @ [RmContent k]\<rparr>)"

text \<open>
  What the caller of an operation observes.
  \<^item> \<open>Returned x\<close>: the caller's callback is invoked with \<open>(null, x)\<close>.
  \<^item> \<open>Failed e\<close>: the caller's callback is invoked with the error \<open>e\<close>.
  \<^item> \<open>Uncaught e\<close>: \<open>e\<close> is thrown where nothing catches it (an unhandled rejection or
    an uncaught exception); the caller's callback is never invoked.
\<close>

datatype 'a outcome = Returned 'a | Failed error | Uncaught error

section \<open>The cursor: kInit, kAdvanceNext, kAdvancePrev\<close>

text \<open>
  The options of \<open>_seek (target, options)\<close>, stored as \<open>{...options, target}\<close>. The code
  reads a flag by presence (\<open>'gt' in options\<close>) and by truthiness (\<open>options.gt\<close>):
  \<open>None\<close> is an absent property, \<open>Some t\<close> a present one whose value is truthy iff \<open>t\<close>.
\<close>

record seek_options =
  seek_target :: string
  seek_gt :: "bool option"
  seek_gte :: "bool option"
  seek_lt :: "bool option"
  seek_lte :: "bool option"

definition truthy :: "bool option \<Rightarrow> bool" where
  "truthy f = (f = Some True)"

text \<open>
  The symbol-keyed fields of an iterator. \<open>kIndexPromise\<close> is the settled state of the
  promise made in \<open>kInit\<close>: \<open>None\<close> fulfilled, \<open>Some e\<close> rejected with \<open>e\<close>. \<open>kDone\<close> starts
  \<open>undefined\<close>, which is falsy: \<open>False\<close>. When the promise is rejected \<open>kIndexKeys\<close> stays
  \<open>undefined\<close> and is never read (the model holds \<open>[]\<close>).
\<close>

record iter =
  kReverse :: bool
  kCursor :: int
  kDone :: bool
  kSeekOptions :: "seek_options option"
  kIndexPromise :: "error option"
  kIndexKeys :: "string list"
  kLowerBound :: bound
  kUpperBound :: bound
  kBatchSize :: int

text \<open>
  \<open>kInit (db, options)\<close>, run by the constructor of each of the three iterator classes.
  It calls \<open>cacache.ls\<close> at once, sorts the keys and keeps
  \<open>keys.splice (start, end - start + 1)\<close>. \<open>kCursor\<close> is \<open>0\<close> for both directions.
\<close>

definition kInit :: "int \<Rightarrow> options \<Rightarrow> 'v cacache \<Rightarrow> iter \<times> 'v cacache" where
  "kInit batchSize opts c =
    (let this = \<lparr>kReverse = opt_reverse opts, kCursor = 0, kDone = False, kSeekOptions = None,
                  kIndexPromise = None, kIndexKeys = [], kLowerBound = KNone,
                  kUpperBound = KNone, kBatchSize = batchSize\<rparr>
     in case cacache_ls c of
          (Inl e, c') \<Rightarrow> (this\<lparr>kIndexPromise := Some e\<rparr>, c')
        | (Inr entries, c') \<Rightarrow>
            (let keys = sort entries;
                 b = parseBounds keys opts
             in (this\<lparr>kCursor := 0, kLowerBound := b_lowerBound b, kUpperBound := b_upperBound b,
                       kIndexKeys := splice keys (b_start b) (b_end b - b_start b + 1)\<rparr>, c')))"

text \<open>
  The advance functions return the key (\<open>None\<close> for \<open>null\<close> or \<open>undefined\<close>, which their
  callers \<open>kNext\<close> and \<open>getKeyBatch\<close> do not tell apart) and the new state. The methods of
  the keys-only class \<open>KeyIterator\<close>, which call the advance function directly, are not
  modelled.
\<close>

definition kAdvanceNext :: "iter \<Rightarrow> string option \<times> iter" where
  "kAdvanceNext this =
    (if kDone this then (None, this)
     else let keys = kIndexKeys this; cursor = kCursor this in
       if cursor < int (length keys)
       then (js_index keys cursor,
             this\<lparr>kCursor := cursor + 1, kDone := (cursor + 1 \<ge> int (length keys))\<rparr>)
       else (None, this\<lparr>kDone := True\<rparr>))"

definition kAdvancePrev :: "iter \<Rightarrow> string option \<times> iter" where
  "kAdvancePrev this =
    (if kDone this then (None, this)
     else let cursor = kCursor this in
       if cursor > 0
       then (js_index (kIndexKeys this) cursor,
             this\<lparr>kCursor := cursor - 1, kDone := (cursor - 1 = 0)\<rparr>)
       else (None, this\<lparr>kDone := True\<rparr>))"

definition kAdvance :: "iter \<Rightarrow> string option \<times> iter" where
  "kAdvance this = (if kReverse this then kAdvancePrev this else kAdvanceNext this)"

section \<open>Seek\<close>

definition seek :: "string \<Rightarrow> seek_options \<Rightarrow> iter \<Rightarrow> iter" where
  "seek target' so this = this\<lparr>kSeekOptions := Some (so\<lparr>seek_target := target'\<rparr>)\<rparr>"

text \<open>The body of the \<open>then\<close> handler of \<open>kAwaitIndex\<close>, forward branch.\<close>

definition handleSeekForward :: "seek_options \<Rightarrow> iter \<Rightarrow> iter" where
  "handleSeekForward so this =
    (let target' = Key (seek_target so);
         keys = kIndexKeys this;
         len = int (length keys);
         beforeStart = js_lt0 (compare target' (js_index keys 0));
         afterEnd = js_gt0 (compare target' (js_index keys (len - 1)))
     in if beforeStart then
          (if has (seek_gt so) \<or> has (seek_gte so)
           then this\<lparr>kDone := False, kCursor := 0\<rparr>
           else this\<lparr>kDone := True, kCursor := len\<rparr>)
        else if afterEnd then
          (if has (seek_lt so) \<or> has (seek_lte so)
           then this\<lparr>kDone := False, kCursor := 0\<rparr>
           else this\<lparr>kDone := True, kCursor := - 1\<rparr>)
        else
          (let pos0 = binarySearch keys target';
               pos = (if pos0 < 0 then
                        (if pos0 = - 1 then
                           (if truthy (seek_gt so) \<or> truthy (seek_gte so) then 0 else len)
                         else - pos0)
                      else if has (seek_gt so) then pos0 + 1 else pos0)
           in this\<lparr>kCursor := pos, kDone := (pos \<ge> len)\<rparr>))"

text \<open>The reverse branch. Its last assignment sets \<open>kCursor\<close> only: \<open>kDone\<close> keeps its value.\<close>

definition handleSeekReverse :: "seek_options \<Rightarrow> iter \<Rightarrow> iter" where
  "handleSeekReverse so this =
    (let target' = Key (seek_target so);
         keys = kIndexKeys this;
         len = int (length keys);
         beforeStart = js_gt0 (compare target' (js_index keys (len - 1)));
         afterEnd = js_lt0 (compare target' (js_index keys 0))
     in if beforeStart then
          (if has (seek_lt so) \<or> has (seek_lte so)
           then this\<lparr>kDone := False, kCursor := len - 1\<rparr>
           else this\<lparr>kDone := True, kCursor := - 1\<rparr>)
        else if afterEnd then
          (if has (seek_gt so) \<or> has (seek_gte so)
           then this\<lparr>kDone := False, kCursor := len - 1\<rparr>
           else this\<lparr>kDone := True, kCursor := 0\<rparr>)
        else
          (let pos0 = binarySearch keys target' in
           if pos0 < 0 then
             (if pos0 = - 1 then
                (if truthy (seek_lt so) \<or> truthy (seek_lte so)
                 then this\<lparr>kDone := False, kCursor := len - 1\<rparr>
                 else this\<lparr>kDone := True, kCursor := - 1\<rparr>)
              else this\<lparr>kCursor := - pos0 - 1\<rparr>)
           else this\<lparr>kCursor := (if has (seek_gt so) then pos0 - 1 else pos0)\<rparr>))"

text \<open>
  \<open>kAwaitIndex ()\<close>: the settled state of the promise it returns (\<open>None\<close> fulfilled,
  \<open>Some e\<close> rejected) and the new state. Without a pending seek it returns \<open>kIndexPromise\<close>
  itself. With one, the seek is cleared and applied once the index is there; when the
  index promise was rejected the \<open>catch\<close> handler marks the cursor done and \<^emph>\<open>returns\<close> the
  error, so the promise handed to the caller is fulfilled.
\<close>

definition kAwaitIndex :: "iter \<Rightarrow> error option \<times> iter" where
  "kAwaitIndex this =
    (case kSeekOptions this of
       None \<Rightarrow> (kIndexPromise this, this)
     | Some so \<Rightarrow>
         (let this1 = this\<lparr>kSeekOptions := None\<rparr> in
          case kIndexPromise this1 of
            None \<Rightarrow> (None, if \<not> kReverse this1 then handleSeekForward so this1
                           else handleSeekReverse so this1)
          | Some err \<Rightarrow> (None, this1\<lparr>kDone := True, kCursor := - 1\<rparr>)))"

section \<open>Fetching values: fetch, getValue, getMany\<close>

text \<open>
  \<open>fetch (location, key)\<close> resolves to the data, or to \<open>undefined\<close> (\<open>None\<close>) when
  \<open>cacache.get\<close> rejects with \<open>err.code === 'ENOENT'\<close>; any other error is thrown again.
\<close>

definition fetch :: "string \<Rightarrow> 'v cacache \<Rightarrow> (error + 'v option) \<times> 'v cacache" where
  "fetch key c =
    (case cacache_get key c of
       (Inr data, c') \<Rightarrow> (Inr (Some data), c')
     | (Inl err, c') \<Rightarrow>
         (if err = CodedError ''ENOENT'' then (Inr None, c') else (Inl err, c')))"

text \<open>
  A callback is a function of \<open>(err, value)\<close> that either completes with a result
  (\<open>Inr\<close>) or throws (\<open>Inl\<close>). \<open>getValue\<close> and \<open>getMany\<close> invoke it inside
  \<open>promise.then (...).catch (callback)\<close>: when the invocation in the \<open>then\<close> handler throws,
  the \<open>catch\<close> handler invokes the callback again with what was thrown; when the
  invocation in the \<open>catch\<close> handler throws, nothing catches it (\<open>Inl\<close> in the result).
\<close>

definition getValue ::
  "string \<Rightarrow> (error option \<Rightarrow> 'v option \<Rightarrow> error + 'r) \<Rightarrow> 'v cacache \<Rightarrow> (error + 'r) \<times> 'v cacache"
where
  "getValue key callback c =
    (case fetch key c of
       (Inr data, c') \<Rightarrow>
         (case (if data = None then callback (Some (Error ''NotFound'')) None
                else callback None data) of
            Inr r \<Rightarrow> (Inr r, c')
          | Inl thrown \<Rightarrow> (callback (Some thrown) None, c'))
     | (Inl err, c') \<Rightarrow> (callback (Some err) None, c'))"

text \<open>
  \<open>pMap (keys, key => fetch (location, key), {concurrency})\<close>: one result per key, in the
  order of the keys, or the rejection of a fetch. The fetches are modelled one after the
  other, stopping at the first rejection; the order in which concurrent fetches complete
  is not modelled. The source starts up to \<open>concurrency\<close> fetches at once: when one of
  them rejects, the store may already have received \<open>get\<close> calls for later keys, which
  the log of the model then lacks. The result handed to the callback is the same, and
  when no fetch rejects the log holds one \<open>Get\<close> per key, in the order of the keys.
\<close>

fun pMap_fetch :: "string list \<Rightarrow> 'v cacache \<Rightarrow> (error + 'v option list) \<times> 'v cacache" where
  "pMap_fetch [] c = (Inr [], c)"
| "pMap_fetch (key # keys) c =
    (case fetch key c of
       (Inl err, c') \<Rightarrow> (Inl err, c')
     | (Inr v, c') \<Rightarrow>
         (case pMap_fetch keys c' of
            (Inl err, c'') \<Rightarrow> (Inl err, c'')
          | (Inr vs, c'') \<Rightarrow> (Inr (v # vs), c'')))"

text \<open>
  \<open>getMany (location, keys, concurrency, callback)\<close>. For an empty \<open>keys\<close> the source
  invokes \<open>callback (null, [])\<close> on the next tick and, having no \<open>return\<close>, once more when
  \<open>pMap\<close> resolves to \<open>[]\<close>: the callback runs twice on the same arguments, and
  \<open>getMany\<close> below gives the result of that invocation once; \<open>getMany_invocations\<close>
  counts how often the callback runs.
\<close>

definition getMany ::
  "string list \<Rightarrow> (error option \<Rightarrow> 'v option list \<Rightarrow> error + 'r) \<Rightarrow> 'v cacache
     \<Rightarrow> (error + 'r) \<times> 'v cacache"
where
  "getMany keys callback c =
    (case pMap_fetch keys c of
       (Inr results, c') \<Rightarrow>
         (case callback None results of
            Inr r \<Rightarrow> (Inr r, c')
          | Inl thrown \<Rightarrow> (callback (Some thrown) [], c'))
     | (Inl err, c') \<Rightarrow> (callback (Some err) [], c'))"

text \<open>
  The number of times \<open>getMany\<close> invokes its callback: once more for an empty \<open>keys\<close>
  (the invocation on the next tick), once when \<open>pMap\<close> settles, and once more from the
  \<open>catch\<close> handler when the invocation in the \<open>then\<close> handler threw.
\<close>

definition getMany_invocations ::
  "string list \<Rightarrow> (error option \<Rightarrow> 'v option list \<Rightarrow> error + 'r) \<Rightarrow> 'v cacache \<Rightarrow> nat"
where
  "getMany_invocations keys callback c =
    (if keys = [] then 1 else 0) +
    (case fst (pMap_fetch keys c) of
       Inr results \<Rightarrow> (case callback None results of Inr r \<Rightarrow> 1 | Inl thrown \<Rightarrow> 2)
     | Inl err \<Rightarrow> 1)"

section \<open>The shared operations: kNext, getKeyBatch, kNextv, kAll\<close>

text \<open>\<open>!key\<close> holds for \<open>null\<close>, \<open>undefined\<close> and the empty string.\<close>

definition falsy :: "string option \<Rightarrow> bool" where
  "falsy key = (key = None \<or> key = Some [])"

text \<open>
  What an uncaught exception or a completed callback leaves for the caller.
\<close>

definition settle :: "error + 'a outcome \<Rightarrow> 'a outcome" where
  "settle r = (case r of Inl thrown \<Rightarrow> Uncaught thrown | Inr out \<Rightarrow> out)"

text \<open>
  The callback that \<open>kNext\<close> hands to \<open>getValue\<close>:
  \<open>(err, value) => { this.nextTick (callback, err, key, value.data) }\<close>.
  Reading \<open>value.data\<close> throws a \<open>TypeError\<close> when \<open>value\<close> is \<open>undefined\<close>, before the
  caller's callback is scheduled.
\<close>

definition kNext_callback ::
  "string \<Rightarrow> error option \<Rightarrow> 'v option \<Rightarrow> error + (string \<times> 'v) option outcome"
where
  "kNext_callback key err v =
    (case v of
       None \<Rightarrow> Inl TypeError
     | Some data \<Rightarrow> Inr (case err of Some e \<Rightarrow> Failed e | None \<Rightarrow> Returned (Some (key, data))))"

text \<open>
  \<open>kNext (callback)\<close>: \<open>Returned None\<close> is the call \<open>callback ()\<close> that ends the sequence.
\<close>

definition kNext :: "iter \<Rightarrow> 'v cacache \<Rightarrow> (string \<times> 'v) option outcome \<times> iter \<times> 'v cacache" where
  "kNext this c =
    (case kAwaitIndex this of
       (Some err, this1) \<Rightarrow> (Failed err, this1, c)
     | (None, this1) \<Rightarrow>
         (case kAdvance this1 of
            (key, this2) \<Rightarrow>
              if falsy key then (Returned None, this2, c)
              else (case getValue (the key) (kNext_callback (the key)) c of
                      (r, c') \<Rightarrow> (settle r, this2, c'))))"

text \<open>
  \<open>getKeyBatch (iter, batchSize)\<close>: a \<open>do ... while (slice.length < batchSize)\<close> loop, so
  at least one advance is made whatever \<open>batchSize\<close> is.
\<close>

function getKeyBatch_loop :: "iter \<Rightarrow> string list \<Rightarrow> int \<Rightarrow> string list \<times> iter" where
  "getKeyBatch_loop it slice batchSize =
    (case kAdvance it of
       (key, it') \<Rightarrow>
         if falsy key then (slice, it')
         else if int (length (slice @ [the key])) < batchSize
              then getKeyBatch_loop it' (slice @ [the key]) batchSize
              else (slice @ [the key], it'))"
  by pat_completeness auto
termination
  by (relation "measure (\<lambda>(it, slice, batchSize). nat (batchSize - int (length slice)))") auto

declare getKeyBatch_loop.simps [simp del]

definition getKeyBatch :: "iter \<Rightarrow> int \<Rightarrow> string list \<times> iter" where
  "getKeyBatch it batchSize = getKeyBatch_loop it [] batchSize"

text \<open>
  \<open>result.push ([keys[i], values[i].data])\<close> for each \<open>i\<close>: reading \<open>.data\<close> of an
  \<open>undefined\<close> value throws a \<open>TypeError\<close>. \<open>pMap\<close> gives one value per key, so the two
  lists have the same length.
\<close>

fun pair_entries :: "string list \<Rightarrow> 'v option list \<Rightarrow> error + (string \<times> 'v) list" where
  "pair_entries (k # ks) (Some v # vs) =
     (case pair_entries ks vs of Inl e \<Rightarrow> Inl e | Inr es \<Rightarrow> Inr ((k, v) # es))"
| "pair_entries (k # ks) (None # vs) = Inl TypeError"
| "pair_entries (k # ks) [] = Inl TypeError"
| "pair_entries [] vs = Inr []"

definition kNextv_callback ::
  "string list \<Rightarrow> error option \<Rightarrow> 'v option list \<Rightarrow> error + (string \<times> 'v) list outcome"
where
  "kNextv_callback keys err vs =
    (case err of
       Some e \<Rightarrow> Inr (Failed e)
     | None \<Rightarrow> (case pair_entries keys vs of Inl thrown \<Rightarrow> Inl thrown | Inr result \<Rightarrow> Inr (Returned result)))"

definition kNextv ::
  "int \<Rightarrow> iter \<Rightarrow> 'v cacache \<Rightarrow> (string \<times> 'v) list outcome \<times> iter \<times> 'v cacache"
where
  "kNextv size' this c =
    (case kAwaitIndex this of
       (Some err, this1) \<Rightarrow> (Failed err, this1, c)
     | (None, this1) \<Rightarrow>
         (case getKeyBatch this1 size' of
            (keys, this2) \<Rightarrow>
              (case getMany keys (kNextv_callback keys) c of
                 (r, c') \<Rightarrow> (settle r, this2, c'))))"

text \<open>
  The distance of the cursor from the end of its traversal. Every advance that hands out
  a key shortens it, which is why the loop of \<open>kAll\<close> stops.
\<close>

definition remaining :: "iter \<Rightarrow> nat" where
  "remaining it =
    (if kReverse it then nat (kCursor it) else nat (int (length (kIndexKeys it)) - kCursor it))"

lemma kAdvance_remaining_le:
  "kAdvance it = (key, it') \<Longrightarrow> remaining it' \<le> remaining it"
  by (auto simp: kAdvance_def kAdvanceNext_def kAdvancePrev_def remaining_def Let_def
           split: if_splits)

lemma kAdvance_remaining_less:
  "kAdvance it = (key, it') \<Longrightarrow> \<not> falsy key \<Longrightarrow> remaining it' < remaining it"
  by (auto simp: kAdvance_def kAdvanceNext_def kAdvancePrev_def remaining_def Let_def falsy_def
           split: if_splits)

lemma getKeyBatch_loop_remaining:
  "getKeyBatch_loop it slice batchSize = (keys, it') \<Longrightarrow>
     remaining it' \<le> remaining it \<and> (keys \<noteq> slice \<longrightarrow> remaining it' < remaining it)"
proof (induction it slice batchSize arbitrary: keys it' rule: getKeyBatch_loop.induct)
  case (1 it slice batchSize)
  obtain key it1 where adv: "kAdvance it = (key, it1)" by (cases "kAdvance it")
  show ?case
  proof (cases "falsy key")
    case True
    with "1.prems" adv have "keys = slice" "it' = it1"
      by (simp_all add: getKeyBatch_loop.simps [of it])
    with kAdvance_remaining_le [OF adv] show ?thesis by simp
  next
    case False
    note less = kAdvance_remaining_less [OF adv False]
    show ?thesis
    proof (cases "int (length (slice @ [the key])) < batchSize")
      case True
      with "1.prems" adv False
      have rec: "getKeyBatch_loop it1 (slice @ [the key]) batchSize = (keys, it')"
        by (simp add: getKeyBatch_loop.simps [of it])
      from "1.IH" [OF adv [symmetric] False True rec] less show ?thesis by simp
    next
      case full: False
      with "1.prems" adv False have "it' = it1"
        by (simp add: getKeyBatch_loop.simps [of it])
      with less show ?thesis by simp
    qed
  qed
qed

lemma getKeyBatch_remaining:
  "getKeyBatch it batchSize = (keys, it') \<Longrightarrow> keys \<noteq> [] \<Longrightarrow> remaining it' < remaining it"
  using getKeyBatch_loop_remaining [of it "[]" batchSize keys it'] by (simp add: getKeyBatch_def)

text \<open>
  The callback that the loop of \<open>kAll\<close> hands to \<open>getMany\<close>. It ends the call with an
  outcome (\<open>Inl\<close>) or goes round the loop again with the longer \<open>result\<close> (\<open>Inr\<close>).
  \<open>values.forEach\<close> throws a \<open>TypeError\<close> on the first \<open>undefined\<close> value.
\<close>

definition kAll_callback ::
  "string list \<Rightarrow> (string \<times> 'v) list \<Rightarrow> error option \<Rightarrow> 'v option list
     \<Rightarrow> error + ((string \<times> 'v) list option outcome + (string \<times> 'v) list)"
where
  "kAll_callback keys result err vs =
    (case err of
       Some e \<Rightarrow> Inr (Inl (Failed e))
     | None \<Rightarrow>
         (case pair_entries keys vs of
            Inl thrown \<Rightarrow> Inl thrown
          | Inr es \<Rightarrow>
              Inr (if vs = [] then Inl (Returned (Some (result @ es))) else Inr (result @ es))))"

function kAll_loop ::
  "iter \<Rightarrow> 'v cacache \<Rightarrow> (string \<times> 'v) list
     \<Rightarrow> (string \<times> 'v) list option outcome \<times> iter \<times> 'v cacache"
where
  "kAll_loop this c result =
    (case getKeyBatch this (kBatchSize this) of
       (keys, this1) \<Rightarrow>
         if keys = [] then (Returned (Some result), this1, c)
         else (case getMany keys (kAll_callback keys result) c of
                 (Inl thrown, c') \<Rightarrow> (Uncaught thrown, this1, c')
               | (Inr (Inl out), c') \<Rightarrow> (out, this1, c')
               | (Inr (Inr result'), c') \<Rightarrow> kAll_loop this1 c' result'))"
  by pat_completeness auto
termination
  by (relation "measure (\<lambda>(this, c, result). remaining this)")
     (auto dest: getKeyBatch_remaining [OF sym])

declare kAll_loop.simps [simp del]

text \<open>
  \<open>kAll (options, callback)\<close>. On a cursor that is already done the source calls
  \<open>callback ()\<close>: the entries are \<open>undefined\<close> (\<open>Returned None\<close>), not an empty array.
\<close>

definition kAll ::
  "iter \<Rightarrow> 'v cacache \<Rightarrow> (string \<times> 'v) list option outcome \<times> iter \<times> 'v cacache"
where
  "kAll this c =
    (case kAwaitIndex this of
       (Some err, this1) \<Rightarrow> (Failed err, this1, c)
     | (None, this1) \<Rightarrow>
         if kDone this1 then (Returned None, this1, c)
         else kAll_loop this1 c [])"

section \<open>The entries cursor and the values-only cursor\<close>

text \<open>
  \<open>Iterator\<close> passes the results of \<open>kNext\<close>, \<open>kNextv\<close> and \<open>kAll\<close> on unchanged.
\<close>

definition Iterator_next ::
  "iter \<Rightarrow> 'v cacache \<Rightarrow> (string \<times> 'v) option outcome \<times> iter \<times> 'v cacache"
where
  "Iterator_next this c = kNext this c"

definition Iterator_nextv ::
  "int \<Rightarrow> iter \<Rightarrow> 'v cacache \<Rightarrow> (string \<times> 'v) list outcome \<times> iter \<times> 'v cacache"
where
  "Iterator_nextv size' this c = kNextv size' this c"

definition Iterator_all ::
  "iter \<Rightarrow> 'v cacache \<Rightarrow> (string \<times> 'v) list option outcome \<times> iter \<times> 'v cacache"
where
  "Iterator_all this c = kAll this c"

text \<open>
  \<open>ValueIterator\<close> keeps the value of \<open>kNext\<close> and maps \<open>value => value[1]\<close> over the
  entries of \<open>kNextv\<close> and \<open>kAll\<close>. When \<open>kAll\<close> called back with no entries at all
  (\<open>undefined\<close>), \<open>values.map\<close> throws a \<open>TypeError\<close> inside the callback.
\<close>

definition ValueIterator_next ::
  "iter \<Rightarrow> 'v cacache \<Rightarrow> 'v option outcome \<times> iter \<times> 'v cacache"
where
  "ValueIterator_next this c =
    (case kNext this c of
       (Returned entry, this', c') \<Rightarrow> (Returned (map_option snd entry), this', c')
     | (Failed err, this', c') \<Rightarrow> (Failed err, this', c')
     | (Uncaught thrown, this', c') \<Rightarrow> (Uncaught thrown, this', c'))"

definition ValueIterator_nextv ::
  "int \<Rightarrow> iter \<Rightarrow> 'v cacache \<Rightarrow> 'v list outcome \<times> iter \<times> 'v cacache"
where
  "ValueIterator_nextv size' this c =
    (case kNextv size' this c of
       (Returned values, this', c') \<Rightarrow> (Returned (map snd values), this', c')
     | (Failed err, this', c') \<Rightarrow> (Failed err, this', c')
     | (Uncaught thrown, this', c') \<Rightarrow> (Uncaught thrown, this', c'))"

definition ValueIterator_all ::
  "iter \<Rightarrow> 'v cacache \<Rightarrow> 'v list outcome \<times> iter \<times> 'v cacache"
where
  "ValueIterator_all this c =
    (case kAll this c of
       (Returned None, this', c') \<Rightarrow> (Uncaught TypeError, this', c')
     | (Returned (Some values), this', c') \<Rightarrow> (Returned (map snd values), this', c')
     | (Failed err, this', c') \<Rightarrow> (Failed err, this', c')
     | (Uncaught thrown, this', c') \<Rightarrow> (Uncaught thrown, this', c'))"

section \<open>The batch of the database: _batch\<close>

record 'v operation =
  op_type :: string
  op_key :: string
  op_value :: 'v

text \<open>
  \<open>handlePut\<close> and \<open>handleDel\<close> run \<open>pMap\<close> over one run of operations; as for the
  fetches, the calls are modelled in order, stopping at the first rejection. The source
  starts up to \<open>concurrency\<close> of them at once: when one rejects, writes or removals for
  later operations of the run may already have been issued, which the log of the model
  then lacks. When none rejects the log holds one call per operation, in order.
\<close>

fun handlePut :: "'v operation list \<Rightarrow> 'v cacache \<Rightarrow> error option \<times> 'v cacache" where
  "handlePut [] c = (None, c)"
| "handlePut (operation # operations) c =
    (case cacache_put (op_key operation) (op_value operation) c of
       (Some err, c') \<Rightarrow> (Some err, c')
     | (None, c') \<Rightarrow> handlePut operations c')"

fun handleDel :: "'v operation list \<Rightarrow> 'v cacache \<Rightarrow> error option \<times> 'v cacache" where
  "handleDel [] c = (None, c)"
| "handleDel (operation # operations) c =
    (case cacache_rm_content (op_key operation) c of
       (Some err, c') \<Rightarrow> (Some err, c')
     | (None, c') \<Rightarrow> handleDel operations c')"

text \<open>
  The \<open>loop\<close> of \<open>_batch\<close>, on the operations from \<open>idx\<close> on. It takes the longest run
  of operations of the type of the first, hands a \<open>'put'\<close> run to \<open>handlePut\<close> and a
  \<open>'del'\<close> run to \<open>handleDel\<close> and goes on; for any other type it falls through to
  \<open>this.nextTick (callback)\<close>, which completes the batch without an error.
\<close>

function batch_loop :: "'v operation list \<Rightarrow> 'v cacache \<Rightarrow> unit outcome \<times> 'v cacache" where
  "batch_loop operations c =
    (case operations of
       [] \<Rightarrow> (Returned (), c)
     | operation # rest \<Rightarrow>
         (let lastOpType = op_type operation;
              ops = takeWhile (\<lambda>p. op_type p = lastOpType) operations;
              later = dropWhile (\<lambda>p. op_type p = lastOpType) operations
          in if lastOpType = ''put'' then
               (case handlePut ops c of
                  (Some err, c') \<Rightarrow> (Failed err, c')
                | (None, c') \<Rightarrow> batch_loop later c')
             else if lastOpType = ''del'' then
               (case handleDel ops c of
                  (Some err, c') \<Rightarrow> (Failed err, c')
                | (None, c') \<Rightarrow> batch_loop later c')
             else (Returned (), c)))"
  by pat_completeness auto
termination
  by (relation "measure (\<lambda>(operations, c). length operations)")
     (auto intro: le_imp_less_Suc length_dropWhile_le)

declare batch_loop.simps [simp del]

definition batch :: "'v operation list \<Rightarrow> 'v cacache \<Rightarrow> unit outcome \<times> 'v cacache" where
  "batch operations c = batch_loop operations c"

text \<open>
  Modelled from the spec: the public \<open>batch\<close> of \<open>AbstractLevel\<close> (package
  \<open>abstract-level\<close>), which \<open>CacacheLevel\<close> extends and which is the caller of the hook
  \<open>_batch\<close>, is not under \<open>src/\<close>. The spec names the condition: a batch operation list
  that contains an operation type other than put and delete is \<open>UnknownOperationKind\<close>,
  fatal for that batch call. The check is made on the whole list before \<open>_batch\<close> is
  called, so that \<open>_batch\<close> receives operations of type \<open>'put'\<close> and \<open>'del'\<close> only; the
  error is written \<open>Error ''UnknownOperationKind''\<close>, the class of the error object not
  being visible in the repository.
\<close>

definition AbstractLevel_batch ::
  "'v operation list \<Rightarrow> 'v cacache \<Rightarrow> unit outcome \<times> 'v cacache"
where
  "AbstractLevel_batch operations c =
     (if list_ex (\<lambda>operation. op_type operation \<noteq> ''put'' \<and> op_type operation \<noteq> ''del'') operations
      then (Failed (Error ''UnknownOperationKind''), c)
      else batch operations c)"

section \<open>Example stores, options and cursors\<close>

text \<open>
  A store that lists the keys \<open>ks\<close>, answers \<open>get\<close> by \<open>g\<close>, accepts every write and
  has seen no call yet. Its values are strings.
\<close>

definition example_store :: "string list \<Rightarrow> (string \<Rightarrow> error + string) \<Rightarrow> string cacache" where
  "example_store ks g =
     \<lparr>ls_result = Inr ks, get_result = g, put_result = (\<lambda>k v. None),
      rm_content_result = (\<lambda>k. None), calls = []\<rparr>"

definition no_range :: options where
  "no_range = \<lparr>opt_reverse = False, opt_gt = None, opt_gte = None, opt_lt = None, opt_lte = None\<rparr>"

definition plain_seek :: seek_options where
  "plain_seek = \<lparr>seek_target = [], seek_gt = None, seek_gte = None, seek_lt = None, seek_lte = None\<rparr>"

definition five_keys :: "string list" where
  "five_keys = [''a'', ''b'', ''c'', ''d'', ''e'']"

text \<open>The range \<open>{gt: 'b', lte: 'd'}\<close> of the concrete scenario, in either direction.\<close>

definition range_gt_b_lte_d :: "bool \<Rightarrow> options" where
  "range_gt_b_lte_d rev' =
     \<lparr>opt_reverse = rev', opt_gt = Some ''b'', opt_gte = None, opt_lt = None, opt_lte = Some ''d''\<rparr>"

text \<open>A cursor over the keys \<open>ks\<close> at position \<open>pos\<close>, with no seek pending.\<close>

definition cursor_at :: "bool \<Rightarrow> string list \<Rightarrow> int \<Rightarrow> bool \<Rightarrow> iter" where
  "cursor_at rev' ks pos done' =
     \<lparr>kReverse = rev', kCursor = pos, kDone = done', kSeekOptions = None, kIndexPromise = None,
      kIndexKeys = ks, kLowerBound = KNone, kUpperBound = KNone, kBatchSize = 50\<rparr>"

section \<open>Sequences of operations on a cursor\<close>

text \<open>
  A caller of the entries cursor: the operations it invokes one after the other, each
  completed before the next, and what each reports.
\<close>

datatype cursor_op = OpNext | OpNextv int | OpAll | OpSeek string seek_options

datatype 'v reply =
    NextReply "(string \<times> 'v) option outcome"
  | NextvReply "(string \<times> 'v) list outcome"
  | AllReply "(string \<times> 'v) list option outcome"
  | SeekReply

fun run_op :: "cursor_op \<Rightarrow> iter \<Rightarrow> 'v cacache \<Rightarrow> 'v reply \<times> iter \<times> 'v cacache" where
  "run_op OpNext it c = (case Iterator_next it c of (out, it', c') \<Rightarrow> (NextReply out, it', c'))"
| "run_op (OpNextv n) it c = (case Iterator_nextv n it c of (out, it', c') \<Rightarrow> (NextvReply out, it', c'))"
| "run_op OpAll it c = (case Iterator_all it c of (out, it', c') \<Rightarrow> (AllReply out, it', c'))"
| "run_op (OpSeek t so) it c = (SeekReply, seek t so it, c)"

fun run_ops :: "cursor_op list \<Rightarrow> iter \<Rightarrow> 'v cacache \<Rightarrow> 'v reply list \<times> iter \<times> 'v cacache" where
  "run_ops [] it c = ([], it, c)"
| "run_ops (x # xs) it c =
     (case run_op x it c of
        (r, it', c') \<Rightarrow> (case run_ops xs it' c' of (rs, it'', c'') \<Rightarrow> (r # rs, it'', c'')))"

text \<open>The entries that a reply hands to the caller.\<close>

fun delivered :: "'v reply \<Rightarrow> (string \<times> 'v) list" where
  "delivered (NextReply (Returned (Some e))) = [e]"
| "delivered (NextvReply (Returned es)) = es"
| "delivered (AllReply (Returned (Some es))) = es"
| "delivered r = []"

fun is_seek :: "cursor_op \<Rightarrow> bool" where
  "is_seek (OpSeek t so) = True"
| "is_seek x = False"

text \<open>
  What a cursor that is done reports: the end of the sequence for \<open>next\<close>, an empty
  array for \<open>nextv\<close>, no entries for \<open>all\<close>; the error of the listing, when the index
  promise was rejected with one.
\<close>

fun no_more :: "error option \<Rightarrow> cursor_op \<Rightarrow> 'v reply" where
  "no_more None OpNext = NextReply (Returned None)"
| "no_more None (OpNextv n) = NextvReply (Returned [])"
| "no_more None OpAll = AllReply (Returned None)"
| "no_more (Some e) OpNext = NextReply (Failed e)"
| "no_more (Some e) (OpNextv n) = NextvReply (Failed e)"
| "no_more (Some e) OpAll = AllReply (Failed e)"
| "no_more p (OpSeek t so) = SeekReply"

text \<open>The number of \<open>cacache.ls\<close> calls in the log of the store.\<close>

definition ls_calls :: "'v cacache \<Rightarrow> nat" where
  "ls_calls c = count_list (calls c) Ls"

section \<open>Stores that reject with ENOENT only\<close>

text \<open>What a fetch of \<open>k\<close> resolves to when the store rejects with \<open>ENOENT\<close> only.\<close>

definition fetched :: "'v cacache \<Rightarrow> string \<Rightarrow> 'v option" where
  "fetched c k = (case get_result c k of Inr v \<Rightarrow> Some v | Inl e \<Rightarrow> None)"

definition only_ENOENT :: "'v cacache \<Rightarrow> bool" where
  "only_ENOENT c = (\<forall>k e. get_result c k = Inl e \<longrightarrow> e = CodedError ''ENOENT'')"

section \<open>Facts about the fetches\<close>

lemma fetch_get_result [simp]: "get_result (snd (fetch k c)) = get_result c"
  by (simp add: fetch_def cacache_get_def split: sum.splits)

lemma fetch_only_ENOENT:
  "only_ENOENT c \<Longrightarrow> fst (fetch k c) = Inr (fetched c k)"
  by (auto simp: only_ENOENT_def fetch_def cacache_get_def fetched_def split: sum.splits)

lemma pMap_fetch_get_result [simp]: "get_result (snd (pMap_fetch keys c)) = get_result c"
proof (induction keys arbitrary: c)
  case Nil
  show ?case by simp
next
  case (Cons k keys)
  obtain r c1 where f: "fetch k c = (r, c1)" by (cases "fetch k c")
  have g1: "get_result c1 = get_result c" using fetch_get_result [of k c] f by simp
  obtain r2 c2 where p: "pMap_fetch keys c1 = (r2, c2)" by (cases "pMap_fetch keys c1")
  have g2: "get_result c2 = get_result c" using Cons.IH [of c1] p g1 by simp
  from f p g1 g2 show ?case by (auto split: sum.splits)
qed

lemma pMap_fetch_only_ENOENT:
  "only_ENOENT c \<Longrightarrow> fst (pMap_fetch keys c) = Inr (map (fetched c) keys)"
proof (induction keys arbitrary: c)
  case Nil
  show ?case by simp
next
  case (Cons k keys)
  obtain r c1 where f: "fetch k c = (r, c1)" by (cases "fetch k c")
  from fetch_only_ENOENT [OF Cons.prems, of k] f have r: "r = Inr (fetched c k)" by simp
  have g: "get_result c1 = get_result c" using fetch_get_result [of k c] f by simp
  then have o1: "only_ENOENT c1" and f1: "fetched c1 = fetched c"
    using Cons.prems by (auto simp: only_ENOENT_def fetched_def fun_eq_iff)
  from Cons.IH [OF o1] f1 have "fst (pMap_fetch keys c1) = Inr (map (fetched c) keys)" by simp
  with f r show ?case by (cases "pMap_fetch keys c1") (auto split: sum.splits)
qed

lemma pair_entries_absent:
  "k \<in> set keys \<Longrightarrow> f k = None \<Longrightarrow> pair_entries keys (map f keys) = Inl TypeError"
proof (induction keys)
  case Nil
  then show ?case by simp
next
  case (Cons a keys)
  show ?case
  proof (cases "f a")
    case None
    then show ?thesis by simp
  next
    case (Some v)
    with Cons.prems have "k \<in> set keys" by auto
    from Cons.IH [OF this Cons.prems(2)] Some show ?thesis by simp
  qed
qed

text \<open>
  \<open>nextv\<close> on a cursor that hands out no key calls \<open>getMany\<close> with an empty \<open>keys\<close>:
  its callback, and so the caller's, is invoked twice with the empty array.
\<close>

lemma getMany_invocations_empty:
  "getMany_invocations [] (kNextv_callback []) c = 2"
  by (simp add: getMany_invocations_def kNextv_callback_def)

text \<open>
  A batch with an absent value: the first invocation of the callback throws while it
  pairs keys and values, so \<open>getMany\<close> invokes it again with the \<open>TypeError\<close>.
\<close>

lemma getMany_absent:
  assumes "only_ENOENT c" and "k \<in> set keys" and "get_result c k = Inl e"
    and cb1: "\<And>vs. cb None vs = (case pair_entries keys vs of Inl t \<Rightarrow> Inl t | Inr es \<Rightarrow> good es vs)"
  shows "fst (getMany keys cb c) = cb (Some TypeError) []"
proof -
  obtain r c1 where p: "pMap_fetch keys c = (r, c1)" by (cases "pMap_fetch keys c")
  from pMap_fetch_only_ENOENT [OF assms(1), of keys] p have r: "r = Inr (map (fetched c) keys)" by simp
  have "fetched c k = None" using assms(3) by (simp add: fetched_def)
  from pair_entries_absent [of k keys "fetched c", OF assms(2) this]
  have "cb None (map (fetched c) keys) = Inl TypeError" by (simp add: cb1)
  with p r show ?thesis by (simp add: getMany_def)
qed

section \<open>C6: a value that is absent at fetch time\<close>

text \<open>
  C6 says that a listed key whose value is absent when it is fetched makes \<open>next ()\<close> fail
  with \<open>NotFound\<close>, and a batch read fail as a whole with \<open>NotFound\<close>. The code makes the
  \<open>NotFound\<close> error in \<open>getValue\<close>, but the callback of \<open>kNext\<close> reads \<open>value.data\<close> of the
  \<open>undefined\<close> value first: it throws a \<open>TypeError\<close>, the \<open>catch\<close> handler invokes it again
  and it throws again, so the caller's callback is never invoked. \<open>getMany\<close> has no test
  for \<open>undefined\<close>: \<open>kNextv\<close> and \<open>kAll\<close> throw on \<open>.data\<close> and fail the batch with that
  \<open>TypeError\<close>, not with \<open>NotFound\<close>. The theorem states this for every cursor whose
  index is there and every store that rejects with \<open>ENOENT\<close> only.
\<close>

theorem absent_value_is_not_reported_NotFound:
  assumes await: "kAwaitIndex this = (None, this1)"
    and store: "only_ENOENT c"
    and absent: "get_result c key = Inl (CodedError ''ENOENT'')"
  shows "(\<forall>this2. kAdvance this1 = (Some key, this2) \<and> key \<noteq> []
            \<longrightarrow> fst (kNext this c) = Uncaught TypeError)
       \<and> (\<forall>n keys this2. getKeyBatch this1 n = (keys, this2) \<and> key \<in> set keys
            \<longrightarrow> fst (kNextv n this c) = Failed TypeError)
       \<and> (\<forall>keys this2. \<not> kDone this1 \<and> getKeyBatch this1 (kBatchSize this1) = (keys, this2)
              \<and> key \<in> set keys
            \<longrightarrow> fst (kAll this c) = Failed TypeError)"
proof (intro conjI allI impI)
  fix this2
  assume "kAdvance this1 = (Some key, this2) \<and> key \<noteq> []"
  with await absent show "fst (kNext this c) = Uncaught TypeError"
    by (simp add: kNext_def falsy_def getValue_def fetch_def cacache_get_def
        kNext_callback_def settle_def)
next
  fix n keys this2
  assume b: "getKeyBatch this1 n = (keys, this2) \<and> key \<in> set keys"
  have "fst (getMany keys (kNextv_callback keys) c) = kNextv_callback keys (Some TypeError) []"
    using b by (intro getMany_absent [OF store _ absent, where good = "\<lambda>es vs. Inr (Returned es)"])
      (auto simp: kNextv_callback_def)
  with await b show "fst (kNextv n this c) = Failed TypeError"
    by (cases "getMany keys (kNextv_callback keys) c")
       (simp add: kNextv_def kNextv_callback_def settle_def)
next
  fix keys this2
  assume b: "\<not> kDone this1 \<and> getKeyBatch this1 (kBatchSize this1) = (keys, this2) \<and> key \<in> set keys"
  then have ne: "keys \<noteq> []" by auto
  have "fst (getMany keys (kAll_callback keys []) c) = kAll_callback keys [] (Some TypeError) []"
    using b by (intro getMany_absent [OF store _ absent,
          where good = "\<lambda>es vs. Inr (if vs = [] then Inl (Returned (Some ([] @ es))) else Inr ([] @ es))"])
      (auto simp: kAll_callback_def)
  then have "fst (getMany keys (kAll_callback keys []) c) = Inr (Inl (Failed TypeError))"
    by (simp add: kAll_callback_def)
  with b ne have "fst (kAll_loop this1 c []) = Failed TypeError"
    by (cases "getMany keys (kAll_callback keys []) c")
       (simp add: kAll_loop.simps [of this1])
  with await b show "fst (kAll this c) = Failed TypeError"
    by (simp add: kAll_def)
qed

text \<open>
  The failing input: the store lists the key \<open>a\<close> and has lost its value. \<open>next ()\<close>
  never reports, \<open>nextv (10)\<close> and \<open>all ()\<close> fail with the \<open>TypeError\<close>.
\<close>

theorem absent_value_witness:
  "fst (kNext (fst (kInit 50 no_range (example_store [''a''] (\<lambda>k. Inl (CodedError ''ENOENT'')))))
              (example_store [''a''] (\<lambda>k. Inl (CodedError ''ENOENT'')))) = Uncaught TypeError
   \<and> fst (kNextv 10 (fst (kInit 50 no_range (example_store [''a''] (\<lambda>k. Inl (CodedError ''ENOENT'')))))
              (example_store [''a''] (\<lambda>k. Inl (CodedError ''ENOENT'')))) = Failed TypeError
   \<and> fst (kAll (fst (kInit 50 no_range (example_store [''a''] (\<lambda>k. Inl (CodedError ''ENOENT'')))))
              (example_store [''a''] (\<lambda>k. Inl (CodedError ''ENOENT'')))) = Failed TypeError"
proof -
  let ?c = "example_store [''a''] (\<lambda>k. Inl (CodedError ''ENOENT''))"
  let ?it = "cursor_at False [''a''] 0 False"
  have i: "fst (kInit 50 no_range ?c) = ?it" by code_simp
  have a: "kAwaitIndex ?it = (None, ?it)" by (simp add: kAwaitIndex_def cursor_at_def)
  have s: "only_ENOENT ?c" by (simp add: only_ENOENT_def example_store_def)
  have g: "get_result ?c ''a'' = Inl (CodedError ''ENOENT'')" by (simp add: example_store_def)
  have adv: "kAdvance ?it = (Some ''a'', cursor_at False [''a''] 1 True)" by code_simp
  have b1: "getKeyBatch ?it 10 = ([''a''], cursor_at False [''a''] 1 True)" by code_simp
  have b2: "getKeyBatch ?it (kBatchSize ?it) = ([''a''], cursor_at False [''a''] 1 True)" by code_simp
  have d: "\<not> kDone ?it" by (simp add: cursor_at_def)
  from absent_value_is_not_reported_NotFound [OF a s g] adv b1 b2 d
  show ?thesis unfolding i by auto
qed

section \<open>C9: a batch with an operation of unknown type\<close>

text \<open>
  The hook \<open>_batch\<close> on its own has no branch that makes an error for a type other than
  \<open>'put'\<close> and \<open>'del'\<close>: called with such an operation at the head of the remaining
  operations, its loop falls through to \<open>this.nextTick (callback)\<close>. The check of the
  types is not in \<open>_batch\<close>; it is the caller's.
\<close>

lemma batch_hook_falls_through:
  assumes "op_type operation \<noteq> ''put''" and "op_type operation \<noteq> ''del''"
  shows "batch (operation # rest) c = (Returned (), c)"
  using assms by (simp add: batch_def batch_loop.simps [of "operation # rest"])

text \<open>
  Operations of type \<open>'put'\<close> and \<open>'del'\<close> only pass the check: the batch call is the
  run of \<open>_batch\<close>.
\<close>

lemma AbstractLevel_batch_known_types:
  "list_all (\<lambda>operation. op_type operation = ''put'' \<or> op_type operation = ''del'') operations
   \<Longrightarrow> AbstractLevel_batch operations c = batch operations c"
  by (auto simp: AbstractLevel_batch_def list_ex_iff list_all_iff)



section \<open>C10: the values-only cursor against the entries cursor\<close>

text \<open>
  For \<open>next\<close> and \<open>nextv\<close> the values-only cursor returns the second components of what
  the entries cursor returns, in every state; for \<open>all\<close> it does whenever \<open>kAll\<close> calls
  back with an array.
\<close>

lemma ValueIterator_next_projects:
  "ValueIterator_next this c =
     (case Iterator_next this c of (out, s) \<Rightarrow> (map_outcome (map_option snd) out, s))"
  by (cases "kNext this c" rule: prod_cases3)
     (auto simp: ValueIterator_next_def Iterator_next_def split: outcome.splits)

lemma ValueIterator_nextv_projects:
  "ValueIterator_nextv n this c =
     (case Iterator_nextv n this c of (out, s) \<Rightarrow> (map_outcome (map snd) out, s))"
  by (cases "kNextv n this c" rule: prod_cases3)
     (auto simp: ValueIterator_nextv_def Iterator_nextv_def split: outcome.splits)

lemma ValueIterator_all_projects:
  "fst (Iterator_all this c) \<noteq> Returned None \<Longrightarrow>
   ValueIterator_all this c =
     (case Iterator_all this c of (out, s) \<Rightarrow> (map_outcome (\<lambda>es. map snd (the es)) out, s))"
  by (cases "kAll this c" rule: prod_cases3)
     (auto simp: ValueIterator_all_def Iterator_all_def split: outcome.splits option.splits)

text \<open>
  C10 says that the values-only cursor is the projection of the entries cursor for
  \<open>next\<close>, \<open>nextv\<close> and \<open>all\<close> in every state. On a cursor that is done, \<open>kAll\<close> calls
  back with no argument. The entries cursor passes that on (no entries); the callback of
  \<open>ValueIterator._all\<close> calls \<open>values.map\<close> on \<open>undefined\<close> and throws, so the values-only
  cursor never reports.
\<close>

theorem ValueIterator_all_on_done_cursor:
  assumes "kAwaitIndex this = (None, this1)" and "kDone this1"
  shows "Iterator_all this c = (Returned None, this1, c)
       \<and> ValueIterator_all this c = (Uncaught TypeError, this1, c)"
  using assms by (simp add: Iterator_all_def ValueIterator_all_def kAll_def)

text \<open>The failing input: a forward cursor over the key \<open>a\<close> that has delivered it.\<close>

theorem ValueIterator_all_on_done_cursor_witness:
  "Iterator_all (cursor_at False [''a''] 1 True) (example_store [''a''] Inr)
     = (Returned None, cursor_at False [''a''] 1 True, example_store [''a''] Inr)
   \<and> ValueIterator_all (cursor_at False [''a''] 1 True) (example_store [''a''] Inr)
     = (Uncaught TypeError, cursor_at False [''a''] 1 True, example_store [''a''] Inr)"
proof -
  let ?it = "cursor_at False [''a''] 1 True"
  have a: "kAwaitIndex ?it = (None, ?it)" by (simp add: kAwaitIndex_def cursor_at_def)
  have d: "kDone ?it" by (simp add: cursor_at_def)
  show ?thesis
    by (rule ValueIterator_all_on_done_cursor [OF a d, where c = "example_store [''a''] Inr"])
qed

section \<open>Facts about binarySearch\<close>

text \<open>
  What \<open>binarySearch\<close> returns for a target \<open>t\<close>, when the position \<open>p\<close> parts the array
  into the keys below \<open>t\<close> and the keys above it (as it does in a sorted array without
  \<open>t\<close>): the encoded insertion point \<open>-p - 1\<close>. When \<open>t\<close> sits at position \<open>i\<close>
  between the keys below and the keys above it: \<open>i\<close>.
\<close>

lemma binarySearch_loop_absent:
  "\<forall>i<p. ar ! i < t \<Longrightarrow> \<forall>i. p \<le> i \<and> i < length ar \<longrightarrow> t < ar ! i \<Longrightarrow>
   0 \<le> m \<Longrightarrow> m \<le> int p \<Longrightarrow> int p \<le> n + 1 \<Longrightarrow> n < int (length ar) \<Longrightarrow>
   binarySearch_loop ar (Key t) m n = - int p - 1"
proof (induction ar "Key t" m n rule: binarySearch_loop.induct)
  case (1 ar m n)
  note lo = "1.prems"(1) and hi = "1.prems"(2)
  show ?case
  proof (cases "m \<le> n")
    case False
    then have "binarySearch_loop ar (Key t) m n = - m - 1"
      by (simp add: binarySearch_loop.simps [of ar _ m n])
    moreover from False "1.prems" have "m = int p" by simp
    ultimately show ?thesis by simp
  next
    case True
    define k where "k = (n + m) div 2"
    define cmp where "cmp = compare (Key t) (js_index ar k)"
    have kr: "m \<le> k" "k \<le> n" using True by (simp_all add: k_def)
    with "1.prems" have kin: "0 \<le> k" "k < int (length ar)" by simp_all
    then have idx: "js_index ar k = Some (ar ! nat k)" by (simp add: js_index_def)
    show ?thesis
    proof (cases "nat k < p")
      case below: True
      with lo have "ar ! nat k < t" by simp
      then have gt: "js_gt0 cmp" by (simp add: cmp_def idx js_gt0_def)
      have eq: "binarySearch_loop ar (Key t) m n = binarySearch_loop ar (Key t) (k + 1) n"
        using True gt by (simp add: binarySearch_loop.simps [of ar _ m n] k_def cmp_def Let_def)
      from below kin have "k + 1 \<le> int p" by simp
      from "1.hyps"(1) [OF True k_def cmp_def gt lo hi] kin this "1.prems"
      show ?thesis unfolding eq by simp
    next
      case above: False
      with kin have "p \<le> nat k \<and> nat k < length ar" by simp
      with hi have "t < ar ! nat k" by blast
      then have ngt: "\<not> js_gt0 cmp" and lt: "js_lt0 cmp"
        by (auto simp: cmp_def idx js_gt0_def js_lt0_def)
      have eq: "binarySearch_loop ar (Key t) m n = binarySearch_loop ar (Key t) m (k - 1)"
        using True ngt lt by (simp add: binarySearch_loop.simps [of ar _ m n] k_def cmp_def Let_def)
      from above kin have "int p \<le> k - 1 + 1" by simp
      from "1.hyps"(2) [OF True k_def cmp_def ngt lt lo hi] this kr "1.prems"
      show ?thesis unfolding eq by simp
    qed
  qed
qed

lemma binarySearch_absent:
  assumes "p \<le> length ar" and "\<forall>i<p. ar ! i < t"
    and "\<forall>i. p \<le> i \<and> i < length ar \<longrightarrow> t < ar ! i"
  shows "binarySearch ar (Key t) = - int p - 1"
  using binarySearch_loop_absent [OF assms(2,3), of 0 "int (length ar) - 1"] assms(1)
  by (simp add: binarySearch_def)

lemma binarySearch_loop_present:
  "i < length ar \<Longrightarrow> ar ! i = t \<Longrightarrow> \<forall>j<i. ar ! j < t \<Longrightarrow>
   \<forall>j. i < j \<and> j < length ar \<longrightarrow> t < ar ! j \<Longrightarrow>
   0 \<le> m \<Longrightarrow> m \<le> int i \<Longrightarrow> int i \<le> n \<Longrightarrow> n < int (length ar) \<Longrightarrow>
   binarySearch_loop ar (Key t) m n = int i"
proof (induction ar "Key t" m n rule: binarySearch_loop.induct)
  case (1 ar m n)
  note at = "1.prems"(1,2) and lo = "1.prems"(3) and hi = "1.prems"(4)
  have True: "m \<le> n" using "1.prems" by simp
  define k where "k = (n + m) div 2"
  define cmp where "cmp = compare (Key t) (js_index ar k)"
  have kr: "m \<le> k" "k \<le> n" using True by (simp_all add: k_def)
  with "1.prems" have kin: "0 \<le> k" "k < int (length ar)" by simp_all
  then have idx: "js_index ar k = Some (ar ! nat k)" by (simp add: js_index_def)
  consider (below) "nat k < i" | (hit) "nat k = i" | (above) "i < nat k" by linarith
  then show ?case
  proof cases
    case below
    with lo have "ar ! nat k < t" by simp
    then have gt: "js_gt0 cmp" by (simp add: cmp_def idx js_gt0_def)
    have eq: "binarySearch_loop ar (Key t) m n = binarySearch_loop ar (Key t) (k + 1) n"
      using True gt by (simp add: binarySearch_loop.simps [of ar _ m n] k_def cmp_def Let_def)
    from below kin have "k + 1 \<le> int i" by simp
    from "1.hyps"(1) [OF True k_def cmp_def gt at lo hi] kin this "1.prems"
    show ?thesis unfolding eq by simp
  next
    case hit
    with at have "ar ! nat k = t" by simp
    then have ngt: "\<not> js_gt0 cmp" and nlt: "\<not> js_lt0 cmp"
      by (auto simp: cmp_def idx js_gt0_def js_lt0_def)
    have "binarySearch_loop ar (Key t) m n = k"
      using True ngt nlt by (simp add: binarySearch_loop.simps [of ar _ m n] k_def cmp_def Let_def)
    with hit kin show ?thesis by simp
  next
    case above
    with kin have "i < nat k \<and> nat k < length ar" by simp
    with hi have "t < ar ! nat k" by blast
    then have ngt: "\<not> js_gt0 cmp" and lt: "js_lt0 cmp"
      by (auto simp: cmp_def idx js_gt0_def js_lt0_def)
    have eq: "binarySearch_loop ar (Key t) m n = binarySearch_loop ar (Key t) m (k - 1)"
      using True ngt lt by (simp add: binarySearch_loop.simps [of ar _ m n] k_def cmp_def Let_def)
    from above kin have "int i \<le> k - 1" by simp
    from "1.hyps"(2) [OF True k_def cmp_def ngt lt at lo hi] this kr "1.prems"
    show ?thesis unfolding eq by simp
  qed
qed

lemma binarySearch_present:
  assumes "i < length ar" and "ar ! i = t" and "\<forall>j<i. ar ! j < t"
    and "\<forall>j. i < j \<and> j < length ar \<longrightarrow> t < ar ! j"
  shows "binarySearch ar (Key t) = int i"
  using binarySearch_loop_present [OF assms, of 0 "int (length ar) - 1"] assms(1)
  by (simp add: binarySearch_def)

text \<open>In a sorted array without duplicates every key is found, at its position.\<close>

lemma binarySearch_finds_key:
  assumes "sorted keys" and "distinct keys" and "y \<in> set keys"
  shows "\<exists>i<length keys. keys ! i = y \<and> binarySearch keys (Key y) = int i"
proof -
  from assms(3) obtain i where i: "i < length keys" "keys ! i = y"
    by (auto simp: in_set_conv_nth)
  from assms(1,2) have s: "sorted_wrt (<) keys" by (simp add: strict_sorted_iff)
  have lo: "\<forall>j<i. keys ! j < y"
    using sorted_wrt_nth_less [OF s] i by auto
  have hi: "\<forall>j. i < j \<and> j < length keys \<longrightarrow> y < keys ! j"
    using sorted_wrt_nth_less [OF s] i by auto
  from binarySearch_present [OF i lo hi] i show ?thesis by blast
qed

section \<open>C1: forward iteration over a range\<close>

text \<open>
  A lower bound alone never narrows a forward window: \<open>parseBounds\<close> computes \<open>start\<close>
  from \<open>upperBound\<close>, and \<open>lowerBound\<close> is returned but not used for a position.
\<close>

lemma forward_lower_bound_is_ignored:
  assumes "\<not> opt_reverse opts" and "opt_lt opts = None" and "opt_lte opts = None"
    and "ls_result c = Inr entries"
  shows "kIndexKeys (fst (kInit batchSize opts c)) = sort entries"
  using assms
  by (simp add: kInit_def cacache_ls_def parseBounds_def pick_def splice_def Let_def)

text \<open>
  Nor does the value of a lower bound ever matter: two ranges that differ in the value
  of \<open>gt\<close>, or of \<open>gte\<close>, resolve to the same positions.
\<close>

lemma forward_lower_bound_value_is_ignored:
  assumes "\<not> opt_reverse opts"
  shows "b_start (parseBounds keys (opts\<lparr>opt_gt := Some g\<rparr>))
           = b_start (parseBounds keys (opts\<lparr>opt_gt := Some g'\<rparr>))
       \<and> b_end (parseBounds keys (opts\<lparr>opt_gt := Some g\<rparr>))
           = b_end (parseBounds keys (opts\<lparr>opt_gt := Some g'\<rparr>))
       \<and> b_start (parseBounds keys (opts\<lparr>opt_gte := Some g\<rparr>))
           = b_start (parseBounds keys (opts\<lparr>opt_gte := Some g'\<rparr>))
       \<and> b_end (parseBounds keys (opts\<lparr>opt_gte := Some g\<rparr>))
           = b_end (parseBounds keys (opts\<lparr>opt_gte := Some g'\<rparr>))"
  using assms by (simp add: parseBounds_def Let_def has_def)

lemma forward_gte_c_delivers_all:
  "fst (Iterator_all (fst (kInit 50 (no_range\<lparr>opt_gte := Some ''c''\<rparr>) (example_store five_keys Inr)))
                        (example_store five_keys Inr))
   = Returned (Some [(''a'', ''a''), (''b'', ''b''), (''c'', ''c''), (''d'', ''d''), (''e'', ''e'')])"
  by code_simp

text \<open>
  C1 says that forward iteration delivers the keys of \<open>sort (K)\<close> that satisfy the
  bounds, and \<open>[c, d]\<close> for the keys \<open>a\<close> to \<open>e\<close> with \<open>{gt: 'b', lte: 'd'}\<close>.
  \<open>parseBounds\<close> searches \<open>upperBound\<close> for \<open>start\<close> as it does for \<open>end\<close>. Whenever the
  range has \<open>gt\<close> and an upper bound that is one of the listed keys, at index \<open>i\<close>, it
  adds one to \<open>start\<close> because \<open>gt\<close> is present and leaves \<open>end\<close> at \<open>i\<close>, or at \<open>i - 1\<close>
  for \<open>lt\<close>: \<open>splice (i + 1, 0)\<close> keeps no key and \<open>all ()\<close> returns the empty array,
  whatever keys lie in the range.
\<close>

theorem forward_gt_with_upper_key_delivers_nothing:
  assumes "\<not> opt_reverse opts" and "has (opt_gt opts)"
    and "pick (opt_lte opts) (opt_lt opts) = Key y"
    and "ls_result c = Inr entries" and "distinct entries" and "y \<in> set entries"
  shows "kIndexKeys (fst (kInit batchSize opts c)) = []
       \<and> fst (Iterator_all (fst (kInit batchSize opts c)) c') = Returned (Some [])"
proof -
  let ?keys = "sort entries"
  let ?it = "fst (kInit batchSize opts c)"
  from binarySearch_finds_key [of ?keys y] assms(5,6)
  obtain i where i: "i < length ?keys" "binarySearch ?keys (Key y) = int i" by auto
  have st: "b_start (parseBounds ?keys opts) = int i + 1"
    using assms(1,2,3) i by (simp add: parseBounds_def Let_def)
  have en: "b_end (parseBounds ?keys opts) \<le> int i"
    using assms(1,2,3) i by (simp add: parseBounds_def Let_def)
  have w: "kIndexKeys ?it = []"
    using assms(4) st en by (simp add: kInit_def cacache_ls_def Let_def splice_def)
  have f: "\<not> kReverse ?it" "kCursor ?it = 0" "\<not> kDone ?it" "kSeekOptions ?it = None"
    "kIndexPromise ?it = None"
    using assms(1,4) by (simp_all add: kInit_def cacache_ls_def Let_def)
  have a: "kAwaitIndex ?it = (None, ?it)" using f by (simp add: kAwaitIndex_def)
  have adv: "kAdvance ?it = (None, ?it\<lparr>kDone := True\<rparr>)"
    using f w by (simp add: kAdvance_def kAdvanceNext_def)
  have b: "getKeyBatch ?it m = ([], ?it\<lparr>kDone := True\<rparr>)" for m
    using adv by (simp add: getKeyBatch_def getKeyBatch_loop.simps [of ?it] falsy_def)
  have "fst (kAll ?it c') = Returned (Some [])"
    using a b f by (simp add: kAll_def kAll_loop.simps [of ?it])
  with w show ?thesis by (simp add: Iterator_all_def)
qed

text \<open>
  The concrete scenario: keys \<open>a\<close> to \<open>e\<close>, \<open>{gt: 'b', lte: 'd'}\<close>, forward. The result
  is \<open>[]\<close>, not \<open>[c, d]\<close>.
\<close>

theorem forward_range_scenario_witness:
  "kIndexKeys (fst (kInit 50 (range_gt_b_lte_d False) (example_store five_keys Inr))) = []
   \<and> fst (Iterator_all (fst (kInit 50 (range_gt_b_lte_d False) (example_store five_keys Inr)))
                        (example_store five_keys Inr)) = Returned (Some [])"
proof -
  have h: "\<not> opt_reverse (range_gt_b_lte_d False)" "has (opt_gt (range_gt_b_lte_d False))"
    "pick (opt_lte (range_gt_b_lte_d False)) (opt_lt (range_gt_b_lte_d False)) = Key ''d''"
    "ls_result (example_store five_keys Inr) = Inr five_keys" "distinct five_keys"
    "''d'' \<in> set five_keys"
    by (simp_all add: range_gt_b_lte_d_def has_def pick_def example_store_def five_keys_def)
  show ?thesis by (rule forward_gt_with_upper_key_delivers_nothing [OF h])
qed

section \<open>C2: seek followed by next\<close>

text \<open>
  A forward seek to a key of the window positions the cursor on it, or on its successor
  when the seek carries \<open>gt\<close>: here the code does what C2 says.
\<close>

lemma forward_seek_present_target:
  assumes "kIndexPromise this = None" and "\<not> kReverse this"
    and "i < length (kIndexKeys this)" and "kIndexKeys this ! i = t"
    and "\<forall>j<i. kIndexKeys this ! j < t"
    and "\<forall>j. i < j \<and> j < length (kIndexKeys this) \<longrightarrow> t < kIndexKeys this ! j"
  shows "fst (kAdvance (snd (kAwaitIndex (seek t so this))))
           = (if has (seek_gt so) then js_index (kIndexKeys this) (int i + 1) else Some t)"
proof -
  let ?keys = "kIndexKeys this"
  let ?len = "int (length ?keys)"
  have first: "\<not> t < ?keys ! 0"
  proof (cases "i = 0")
    case True
    with assms(4) show ?thesis by simp
  next
    case False
    with assms(5) have "?keys ! 0 < t" by simp
    then show ?thesis by simp
  qed
  have last: "\<not> ?keys ! (length ?keys - 1) < t"
  proof (cases "i = length ?keys - 1")
    case True
    with assms(4) show ?thesis by simp
  next
    case False
    with assms(3) have "i < length ?keys - 1 \<and> length ?keys - 1 < length ?keys" by arith
    with assms(6) have "t < ?keys ! (length ?keys - 1)" by blast
    then show ?thesis by simp
  qed
  have i0: "js_index ?keys 0 = Some (?keys ! 0)" using assms(3) by (cases "kIndexKeys this") (auto simp: js_index_def)
  have il: "js_index ?keys (?len - 1) = Some (?keys ! (length ?keys - 1))"
    using assms(3) by (cases "kIndexKeys this") (auto simp: js_index_def nat_diff_distrib')
  have nb: "\<not> js_lt0 (compare (Key t) (js_index ?keys 0))"
    using first by (simp add: i0 js_lt0_def)
  have na: "\<not> js_gt0 (compare (Key t) (js_index ?keys (?len - 1)))"
    using last by (simp add: il js_gt0_def)
  have bs: "binarySearch ?keys (Key t) = int i"
    using binarySearch_present [of i ?keys t] assms(3,4,5,6) by simp
  show ?thesis
    using assms(1,2,3,4) nb na bs
    by (auto simp: kAwaitIndex_def seek_def handleSeekForward_def Let_def
        kAdvance_def kAdvanceNext_def js_index_def)
qed

text \<open>
  C2 says that \<open>seek (t)\<close> then \<open>next ()\<close> on a forward cursor yields the smallest key
  \<open>\<ge> t\<close>. Let \<open>t\<close> be absent from the window and strictly inside it, and let \<open>p\<close> be the
  position of the smallest key above \<open>t\<close> (\<open>0 < p < length\<close>). \<open>binarySearch\<close> returns
  \<open>-p - 1\<close> and the code takes \<open>pos = -pos\<close>, which is \<open>p + 1\<close>, where the comment on
  that line says that \<open>pos\<close> is the position of the first key greater than the target.
  So, for every such cursor and target and whatever flags the seek carries, the next
  advance hands out the key at \<open>p + 1\<close> and skips the key at \<open>p\<close> (or ends the sequence,
  when \<open>p\<close> is the last position).
\<close>

theorem forward_seek_overshoots_absent_target:
  assumes "kIndexPromise this = None" and "\<not> kReverse this"
    and "0 < p" and "p < length (kIndexKeys this)"
    and "\<forall>i<p. kIndexKeys this ! i < t"
    and "\<forall>i. p \<le> i \<and> i < length (kIndexKeys this) \<longrightarrow> t < kIndexKeys this ! i"
  shows "kAwaitIndex (seek t so this)
           = (None, this\<lparr>kSeekOptions := None, kCursor := int p + 1,
                          kDone := (int p + 1 \<ge> int (length (kIndexKeys this)))\<rparr>)
       \<and> fst (kAdvance (snd (kAwaitIndex (seek t so this)))) = js_index (kIndexKeys this) (int p + 1)"
proof -
  let ?keys = "kIndexKeys this"
  let ?len = "int (length ?keys)"
  have first: "?keys ! 0 < t" using assms(3,5) by simp
  from assms(4) have "p \<le> length ?keys - 1 \<and> length ?keys - 1 < length ?keys" by arith
  with assms(6) have last: "t < ?keys ! (length ?keys - 1)" by blast
  have i0: "js_index ?keys 0 = Some (?keys ! 0)" using assms(4) by (cases "kIndexKeys this") (auto simp: js_index_def)
  have il: "js_index ?keys (?len - 1) = Some (?keys ! (length ?keys - 1))"
    using assms(4) by (cases "kIndexKeys this") (auto simp: js_index_def nat_diff_distrib')
  have nb: "\<not> js_lt0 (compare (Key t) (js_index ?keys 0))"
    using first by (simp add: i0 js_lt0_def)
  have na: "\<not> js_gt0 (compare (Key t) (js_index ?keys (?len - 1)))"
    using last by (simp add: il js_gt0_def)
  have bs: "binarySearch ?keys (Key t) = - int p - 1"
    using binarySearch_absent [of p ?keys t] assms(4,5,6) by simp
  have a: "kAwaitIndex (seek t so this)
           = (None, this\<lparr>kSeekOptions := None, kCursor := int p + 1,
                          kDone := (int p + 1 \<ge> ?len)\<rparr>)"
    using assms(1,2,3) nb na bs
    by (simp add: kAwaitIndex_def seek_def handleSeekForward_def Let_def add.commute)
  have "fst (kAdvance (this\<lparr>kSeekOptions := None, kCursor := int p + 1,
                          kDone := (int p + 1 \<ge> ?len)\<rparr>)) = js_index ?keys (int p + 1)"
    using assms(2) by (auto simp: kAdvance_def kAdvanceNext_def Let_def js_index_def)
  with a show ?thesis by simp
qed

text \<open>
  The failing input: the keys \<open>a\<close>, \<open>c\<close>, \<open>e\<close> and \<open>seek ('b')\<close>. The smallest key \<open>\<ge> b\<close>
  is \<open>c\<close> at position 1; the cursor goes to position 2 and hands out \<open>e\<close>.
\<close>

theorem forward_seek_overshoots_witness:
  "kAwaitIndex (seek ''b'' plain_seek (cursor_at False [''a'', ''c'', ''e''] 0 False))
     = (None, cursor_at False [''a'', ''c'', ''e''] 2 False)
   \<and> fst (kAdvance (snd (kAwaitIndex (seek ''b'' plain_seek (cursor_at False [''a'', ''c'', ''e''] 0 False)))))
     = Some ''e''"
proof -
  let ?it = "cursor_at False [''a'', ''c'', ''e''] 0 False"
  have h: "kIndexPromise ?it = None" "\<not> kReverse ?it" "0 < (1::nat)" "1 < length (kIndexKeys ?it)"
    "\<forall>i<1. kIndexKeys ?it ! i < ''b''"
    "\<forall>i. 1 \<le> i \<and> i < length (kIndexKeys ?it) \<longrightarrow> ''b'' < kIndexKeys ?it ! i"
    by (auto simp: cursor_at_def nth_Cons split: nat.splits)
  note w = forward_seek_overshoots_absent_target [OF h, of plain_seek]
  from conjunct1 [OF w] have a: "kAwaitIndex (seek ''b'' plain_seek ?it) = (None, cursor_at False [''a'', ''c'', ''e''] 2 False)"
    by (simp add: cursor_at_def)
  from conjunct2 [OF w] have b: "fst (kAdvance (snd (kAwaitIndex (seek ''b'' plain_seek ?it)))) = Some ''e''"
    by (simp add: cursor_at_def js_index_def)
  show ?thesis by (rule conjI [OF a b])
qed

lemma seek_between_keys_scenario:
  "fst (Iterator_next (seek ''b'' plain_seek (fst (kInit 50 no_range (example_store [''a'', ''c'', ''e''] Inr))))
                      (example_store [''a'', ''c'', ''e''] Inr)) = Returned (Some (''e'', ''e''))"
  by code_simp

section \<open>C3: reverse iteration\<close>

text \<open>
  C3 says that a reverse cursor starts at \<open>endPos\<close> of the window and decreases, so that
  it delivers the keys in range in descending order, \<open>[d, c]\<close> in the concrete scenario.
  \<open>kInit\<close> sets \<open>kCursor\<close> to \<open>0\<close> whatever the direction, and \<open>kAdvancePrev\<close> hands out a
  key only while \<open>cursor > 0\<close>: every fresh reverse cursor, over any listing and any
  range, is exhausted by its first advance and delivers nothing.
\<close>

theorem reverse_cursor_delivers_nothing:
  assumes "opt_reverse opts" and "ls_result c = Inr entries"
  shows "kCursor (fst (kInit batchSize opts c)) = 0
       \<and> fst (Iterator_next (fst (kInit batchSize opts c)) c') = Returned None
       \<and> fst (Iterator_nextv n (fst (kInit batchSize opts c)) c') = Returned []
       \<and> fst (Iterator_all (fst (kInit batchSize opts c)) c') = Returned (Some [])"
proof -
  let ?it = "fst (kInit batchSize opts c)"
  have f: "kReverse ?it" "kCursor ?it = 0" "\<not> kDone ?it" "kSeekOptions ?it = None"
    "kIndexPromise ?it = None"
    using assms by (simp_all add: kInit_def cacache_ls_def Let_def)
  have a: "kAwaitIndex ?it = (None, ?it)" using f by (simp add: kAwaitIndex_def)
  have adv: "kAdvance ?it = (None, ?it\<lparr>kDone := True\<rparr>)"
    using f by (simp add: kAdvance_def kAdvancePrev_def)
  have b: "getKeyBatch ?it m = ([], ?it\<lparr>kDone := True\<rparr>)" for m
    using adv by (simp add: getKeyBatch_def getKeyBatch_loop.simps [of ?it] falsy_def)
  have "fst (kNext ?it c') = Returned None"
    using a adv by (simp add: kNext_def falsy_def)
  moreover have "fst (kNextv n ?it c') = Returned []"
    using a b by (simp add: kNextv_def getMany_def kNextv_callback_def settle_def)
  moreover have "fst (kAll ?it c') = Returned (Some [])"
    using a b f by (simp add: kAll_def kAll_loop.simps [of ?it])
  ultimately show ?thesis
    using f by (simp add: Iterator_next_def Iterator_nextv_def Iterator_all_def)
qed

text \<open>The concrete scenario: keys \<open>a\<close> to \<open>e\<close>, \<open>{gt: 'b', lte: 'd'}\<close>, reverse.\<close>

theorem reverse_range_scenario_witness:
  "kCursor (fst (kInit 50 (range_gt_b_lte_d True) (example_store five_keys Inr))) = 0
   \<and> fst (Iterator_next (fst (kInit 50 (range_gt_b_lte_d True) (example_store five_keys Inr)))
                        (example_store five_keys Inr)) = Returned None
   \<and> fst (Iterator_nextv 10 (fst (kInit 50 (range_gt_b_lte_d True) (example_store five_keys Inr)))
                        (example_store five_keys Inr)) = Returned []
   \<and> fst (Iterator_all (fst (kInit 50 (range_gt_b_lte_d True) (example_store five_keys Inr)))
                        (example_store five_keys Inr)) = Returned (Some [])"
proof -
  have r: "opt_reverse (range_gt_b_lte_d True)" by (simp add: range_gt_b_lte_d_def)
  have l: "ls_result (example_store five_keys Inr) = Inr five_keys" by (simp add: example_store_def)
  show ?thesis by (rule reverse_cursor_delivers_nothing [OF r l])
qed

section \<open>C5: a seek below the first key\<close>




section \<open>C4: exhaustion is monotonic\<close>

lemma done_kAdvance: "kDone it \<Longrightarrow> kAdvance it = (None, it)"
  by (simp add: kAdvance_def kAdvanceNext_def kAdvancePrev_def)

lemma done_getKeyBatch: "kDone it \<Longrightarrow> getKeyBatch it n = ([], it)"
  by (simp add: getKeyBatch_def getKeyBatch_loop.simps [of it] done_kAdvance falsy_def)

lemma done_run_op:
  assumes "kDone it" and "kSeekOptions it = None" and "\<not> is_seek x"
  shows "run_op x it c = (no_more (kIndexPromise it) x, it, c)"
proof (cases "kIndexPromise it")
  case None
  with assms have a: "kAwaitIndex it = (None, it)" by (simp add: kAwaitIndex_def)
  show ?thesis
  proof (cases x)
    case OpNext
    with a None assms(1) show ?thesis
      by (simp add: Iterator_next_def kNext_def done_kAdvance falsy_def)
  next
    case (OpNextv n)
    with a None assms(1) show ?thesis
      by (simp add: Iterator_nextv_def kNextv_def done_getKeyBatch getMany_def
          kNextv_callback_def settle_def)
  next
    case OpAll
    with a None assms(1) show ?thesis by (simp add: Iterator_all_def kAll_def)
  next
    case (OpSeek t so)
    with assms(3) show ?thesis by simp
  qed
next
  case (Some e)
  with assms have a: "kAwaitIndex it = (Some e, it)" by (simp add: kAwaitIndex_def)
  show ?thesis
  proof (cases x)
    case OpNext
    with a Some show ?thesis by (simp add: Iterator_next_def kNext_def)
  next
    case (OpNextv n)
    with a Some show ?thesis by (simp add: Iterator_nextv_def kNextv_def)
  next
    case OpAll
    with a Some show ?thesis by (simp add: Iterator_all_def kAll_def)
  next
    case (OpSeek t so)
    with assms(3) show ?thesis by simp
  qed
qed

lemma delivered_no_more [simp]: "delivered (no_more p x) = []"
  by (cases p; cases x) simp_all

text \<open>
  The entries cursor on a cursor that is done, with no seek pending or made: whatever
  the sequence of \<open>next\<close>, \<open>nextv\<close> and \<open>all\<close>, no key is handed out, no value is fetched
  and the cursor and the store are left as they were. \<open>next\<close> reports the end of the
  sequence and \<open>nextv\<close> an empty array; \<open>all\<close> calls back with no entries at all
  (\<open>undefined\<close>); on a cursor whose index promise was rejected each reports that error.
\<close>

lemma done_entries_cursor_reports_no_more:
  assumes "kDone it" and "kSeekOptions it = None" and "\<forall>x \<in> set ops. \<not> is_seek x"
  shows "run_ops ops it c = (map (no_more (kIndexPromise it)) ops, it, c)
       \<and> (\<forall>r \<in> set (fst (run_ops ops it c)). delivered r = [])"
proof -
  have "run_ops ops it c = (map (no_more (kIndexPromise it)) ops, it, c)"
    using assms(3)
  proof (induction ops)
    case Nil
    show ?case by simp
  next
    case (Cons x xs)
    then have "\<not> is_seek x" and "\<forall>y \<in> set xs. \<not> is_seek y" by simp_all
    with Cons.IH done_run_op [OF assms(1,2), of x c] show ?case by simp
  qed
  then show ?thesis by auto
qed

text \<open>
  C4 says that on every cursor, once \<open>kDone\<close> is true and no seek intervenes, every
  later \<open>next\<close>, \<open>nextv\<close> and \<open>all\<close> returns no entries: the end of the sequence or an
  empty sequence. On the values-only cursor \<open>next\<close> and \<open>nextv\<close> do; \<open>all\<close> does not
  return: \<open>kAll\<close> calls back with no argument, \<open>ValueIterator._all\<close> calls \<open>values.map\<close> on
  \<open>undefined\<close> and throws inside the callback, and the caller is never called back. This
  is the defect of C10, met here on every cursor that is done.
\<close>

theorem done_values_cursor_all_never_reports:
  assumes "kDone it" and "kSeekOptions it = None" and "kIndexPromise it = None"
  shows "ValueIterator_next it c = (Returned None, it, c)
       \<and> ValueIterator_nextv n it c = (Returned [], it, c)
       \<and> ValueIterator_all it c = (Uncaught TypeError, it, c)"
proof -
  from assms have a: "kAwaitIndex it = (None, it)" by (simp add: kAwaitIndex_def)
  have "kNext it c = (Returned None, it, c)"
    using a assms(1) by (simp add: kNext_def done_kAdvance falsy_def)
  moreover have "kNextv n it c = (Returned [], it, c)"
    using a assms(1)
    by (simp add: kNextv_def done_getKeyBatch getMany_def kNextv_callback_def settle_def)
  moreover have "kAll it c = (Returned None, it, c)"
    using a assms(1) by (simp add: kAll_def)
  ultimately show ?thesis
    by (simp add: ValueIterator_next_def ValueIterator_nextv_def ValueIterator_all_def)
qed

text \<open>
  The failing input: a values-only cursor over the key \<open>a\<close>. Its first \<open>next ()\<close>
  delivers the value and leaves the cursor done; \<open>next ()\<close> and \<open>nextv (10)\<close> then report
  no more, and \<open>all ()\<close> never reports.
\<close>

theorem done_values_cursor_witness:
  "ValueIterator_next (fst (kInit 50 no_range (example_store [''a''] Inr))) (example_store [''a''] Inr)
     = (Returned (Some ''a''), cursor_at False [''a''] 1 True,
        (example_store [''a''] Inr)\<lparr>calls := [Get ''a'']\<rparr>)
   \<and> ValueIterator_next (cursor_at False [''a''] 1 True) (example_store [''a''] Inr)
     = (Returned None, cursor_at False [''a''] 1 True, example_store [''a''] Inr)
   \<and> ValueIterator_nextv 10 (cursor_at False [''a''] 1 True) (example_store [''a''] Inr)
     = (Returned [], cursor_at False [''a''] 1 True, example_store [''a''] Inr)
   \<and> ValueIterator_all (cursor_at False [''a''] 1 True) (example_store [''a''] Inr)
     = (Uncaught TypeError, cursor_at False [''a''] 1 True, example_store [''a''] Inr)"
proof -
  let ?c = "example_store [''a''] Inr"
  let ?it = "cursor_at False [''a''] 1 True"
  have i: "fst (kInit 50 no_range ?c) = cursor_at False [''a''] 0 False" by code_simp
  have n: "ValueIterator_next (cursor_at False [''a''] 0 False) ?c
             = (Returned (Some ''a''), ?it, ?c\<lparr>calls := [Get ''a'']\<rparr>)"
    by (simp add: ValueIterator_next_def kNext_def kAwaitIndex_def cursor_at_def kAdvance_def
        kAdvanceNext_def js_index_def falsy_def getValue_def fetch_def cacache_get_def
        example_store_def kNext_callback_def settle_def)
  have h: "kDone ?it" "kSeekOptions ?it = None" "kIndexPromise ?it = None"
    by (simp_all add: cursor_at_def)
  from done_values_cursor_all_never_reports [OF h, of ?c 10] n
  show ?thesis unfolding i by simp
qed

section \<open>C8: the listing of the backing store\<close>

text \<open>No fetch, and so no operation of a cursor, adds a listing to the log of the store.\<close>

lemma fetch_ls [simp]: "ls_calls (snd (fetch k c)) = ls_calls c"
  by (simp add: fetch_def cacache_get_def ls_calls_def split: sum.splits)

lemma pMap_fetch_ls [simp]: "ls_calls (snd (pMap_fetch keys c)) = ls_calls c"
proof (induction keys arbitrary: c)
  case Nil
  show ?case by simp
next
  case (Cons k keys)
  obtain r c1 where f: "fetch k c = (r, c1)" by (cases "fetch k c")
  have g1: "ls_calls c1 = ls_calls c" using fetch_ls [of k c] f by simp
  obtain r2 c2 where p: "pMap_fetch keys c1 = (r2, c2)" by (cases "pMap_fetch keys c1")
  have g2: "ls_calls c2 = ls_calls c" using Cons.IH [of c1] p g1 by simp
  from f p g1 g2 show ?case by (auto split: sum.splits)
qed

lemma getValue_ls [simp]: "ls_calls (snd (getValue k cb c)) = ls_calls c"
proof -
  obtain r c1 where f: "fetch k c = (r, c1)" by (cases "fetch k c")
  have "ls_calls c1 = ls_calls c" using fetch_ls [of k c] f by simp
  with f show ?thesis by (auto simp: getValue_def split: sum.splits)
qed

lemma getMany_ls [simp]: "ls_calls (snd (getMany keys cb c)) = ls_calls c"
proof -
  obtain r c1 where f: "pMap_fetch keys c = (r, c1)" by (cases "pMap_fetch keys c")
  have "ls_calls c1 = ls_calls c" using pMap_fetch_ls [of keys c] f by simp
  with f show ?thesis by (auto simp: getMany_def split: sum.splits)
qed

lemma kNext_ls [simp]: "ls_calls (snd (snd (kNext it c))) = ls_calls c"
proof -
  obtain p it1 where a: "kAwaitIndex it = (p, it1)" by (cases "kAwaitIndex it")
  obtain key it2 where b: "kAdvance it1 = (key, it2)" by (cases "kAdvance it1")
  obtain r c1 where g: "getValue (the key) (kNext_callback (the key)) c = (r, c1)"
    by (cases "getValue (the key) (kNext_callback (the key)) c")
  have "ls_calls c1 = ls_calls c" using getValue_ls [of "the key" "kNext_callback (the key)" c] g by simp
  with a b g show ?thesis by (cases p) (auto simp: kNext_def)
qed

lemma kNextv_ls [simp]: "ls_calls (snd (snd (kNextv n it c))) = ls_calls c"
proof -
  obtain p it1 where a: "kAwaitIndex it = (p, it1)" by (cases "kAwaitIndex it")
  obtain keys it2 where b: "getKeyBatch it1 n = (keys, it2)" by (cases "getKeyBatch it1 n")
  obtain r c1 where g: "getMany keys (kNextv_callback keys) c = (r, c1)"
    by (cases "getMany keys (kNextv_callback keys) c")
  have "ls_calls c1 = ls_calls c" using getMany_ls [of keys "kNextv_callback keys" c] g by simp
  with a b g show ?thesis by (cases p) (auto simp: kNextv_def)
qed

lemma kAll_loop_ls [simp]: "ls_calls (snd (snd (kAll_loop it c res))) = ls_calls c"
proof (induction it c res rule: kAll_loop.induct)
  case (1 this c result)
  obtain keys this1 where b: "getKeyBatch this (kBatchSize this) = (keys, this1)"
    by (cases "getKeyBatch this (kBatchSize this)")
  obtain r c1 where g: "getMany keys (kAll_callback keys result) c = (r, c1)"
    by (cases "getMany keys (kAll_callback keys result) c")
  have gc: "ls_calls c1 = ls_calls c"
    using getMany_ls [of keys "kAll_callback keys result" c] g by simp
  show ?case
  proof (cases "keys = []")
    case True
    with b show ?thesis by (simp add: kAll_loop.simps [of this])
  next
    case False
    show ?thesis
    proof (cases r)
      case (Inl thrown)
      with b g False gc show ?thesis by (simp add: kAll_loop.simps [of this])
    next
      case (Inr y)
      show ?thesis
      proof (cases y)
        case (Inl out)
        with Inr b g False gc show ?thesis by (simp add: kAll_loop.simps [of this])
      next
        case inner: (Inr result')
        from "1.IH" [OF b [symmetric] False g [symmetric] Inr inner] gc
        have "ls_calls (snd (snd (kAll_loop this1 c1 result'))) = ls_calls c" by simp
        with inner Inr b g False show ?thesis by (simp add: kAll_loop.simps [of this])
      qed
    qed
  qed
qed

lemma kAll_ls [simp]: "ls_calls (snd (snd (kAll it c))) = ls_calls c"
proof -
  obtain p it1 where a: "kAwaitIndex it = (p, it1)" by (cases "kAwaitIndex it")
  then show ?thesis by (cases p) (auto simp: kAll_def)
qed

lemma run_op_ls [simp]: "ls_calls (snd (snd (run_op x it c))) = ls_calls c"
proof (cases x)
  case OpNext
  then show ?thesis
    using kNext_ls [of it c] by (cases "kNext it c" rule: prod_cases3) (simp add: Iterator_next_def)
next
  case (OpNextv n)
  then show ?thesis
    using kNextv_ls [of n it c] by (cases "kNextv n it c" rule: prod_cases3) (simp add: Iterator_nextv_def)
next
  case OpAll
  then show ?thesis
    using kAll_ls [of it c] by (cases "kAll it c" rule: prod_cases3) (simp add: Iterator_all_def)
next
  case (OpSeek t so)
  then show ?thesis by simp
qed

lemma run_ops_ls [simp]: "ls_calls (snd (snd (run_ops ops it c))) = ls_calls c"
proof (induction ops arbitrary: it c)
  case Nil
  show ?case by simp
next
  case (Cons x xs)
  obtain r it1 c1 where s: "run_op x it c = (r, it1, c1)" by (cases "run_op x it c" rule: prod_cases3)
  have g: "ls_calls c1 = ls_calls c" using run_op_ls [of x it c] s by simp
  obtain rs it2 c2 where t: "run_ops xs it1 c1 = (rs, it2, c2)" by (cases "run_ops xs it1 c1" rule: prod_cases3)
  from Cons.IH [of it1 c1] t g have "ls_calls c2 = ls_calls c" by simp
  with s t show ?case by simp
qed

lemma kInit_ls: "ls_calls (snd (kInit batchSize opts c)) = ls_calls c + 1"
  by (simp add: kInit_def cacache_ls_def ls_calls_def Let_def split: sum.splits)

lemma ValueIterator_ls:
  "ls_calls (snd (snd (ValueIterator_next it c))) = ls_calls c"
  "ls_calls (snd (snd (ValueIterator_nextv n it c))) = ls_calls c"
  "ls_calls (snd (snd (ValueIterator_all it c))) = ls_calls c"
proof -
  show "ls_calls (snd (snd (ValueIterator_next it c))) = ls_calls c"
    using kNext_ls [of it c]
    by (cases "kNext it c" rule: prod_cases3)
       (auto simp: ValueIterator_next_def split: outcome.splits)
  show "ls_calls (snd (snd (ValueIterator_nextv n it c))) = ls_calls c"
    using kNextv_ls [of n it c]
    by (cases "kNextv n it c" rule: prod_cases3)
       (auto simp: ValueIterator_nextv_def split: outcome.splits)
  show "ls_calls (snd (snd (ValueIterator_all it c))) = ls_calls c"
    using kAll_ls [of it c]
    by (cases "kAll it c" rule: prod_cases3)
       (auto simp: ValueIterator_all_def split: outcome.splits option.splits)
qed

text \<open>
  C8 says that the listing is issued once, deferred until the first operation that needs
  the index. \<open>kInit\<close>, which the constructor runs, calls \<open>cacache.ls\<close> itself: a cursor
  that has been made and not yet used has already issued the listing.
\<close>

theorem listing_is_not_deferred_counterexample:
  "calls (snd (kInit 50 no_range (example_store five_keys Inr))) = [Ls]"
  by code_simp

text \<open>
  C8 as amended: the listing is issued exactly once over the lifetime of a cursor, by
  \<open>kInit\<close> when the cursor is made, and no sequence of \<open>seek\<close>, \<open>next\<close>, \<open>nextv\<close> and
  \<open>all\<close> issues another: every operation awaits the one promise of \<open>kInit\<close>, and the
  listing is never refreshed.
\<close>

theorem listing_is_issued_once_by_kInit:
  "ls_calls (snd (kInit batchSize opts c)) = ls_calls c + 1
   \<and> ls_calls (snd (snd (run_ops ops (fst (kInit batchSize opts c)) (snd (kInit batchSize opts c)))))
       = ls_calls c + 1"
  by (simp add: kInit_ls)

section \<open>C7: the window that parseBounds resolves\<close>

text \<open>
  \<open>binarySearch\<close> returns an index of the array or an encoded insertion point
  \<open>-m - 1\<close> with \<open>0 \<le> m \<le> length\<close>.
\<close>

lemma binarySearch_loop_range:
  "0 \<le> m \<Longrightarrow> m \<le> n + 1 \<Longrightarrow>
   (m \<le> binarySearch_loop ar el m n \<and> binarySearch_loop ar el m n \<le> n)
   \<or> (- n - 2 \<le> binarySearch_loop ar el m n \<and> binarySearch_loop ar el m n \<le> - m - 1)"
proof (induction ar el m n rule: binarySearch_loop.induct)
  case (1 ar el m n)
  show ?case
  proof (cases "m \<le> n")
    case False
    with "1.prems" show ?thesis by (simp add: binarySearch_loop.simps [of ar el m n])
  next
    case True
    define k where "k = (n + m) div 2"
    define cmp where "cmp = compare el (js_index ar k)"
    have kr: "m \<le> k" "k \<le> n" using True by (simp_all add: k_def)
    show ?thesis
    proof (cases "js_gt0 cmp")
      case gt: True
      have eq: "binarySearch_loop ar el m n = binarySearch_loop ar el (k + 1) n"
        using True gt by (simp add: binarySearch_loop.simps [of ar el m n] k_def cmp_def Let_def)
      from "1.IH"(1) [OF True k_def cmp_def gt] kr "1.prems"
      show ?thesis unfolding eq by auto
    next
      case ngt: False
      show ?thesis
      proof (cases "js_lt0 cmp")
        case lt: True
        have eq: "binarySearch_loop ar el m n = binarySearch_loop ar el m (k - 1)"
          using True ngt lt by (simp add: binarySearch_loop.simps [of ar el m n] k_def cmp_def Let_def)
        from "1.IH"(2) [OF True k_def cmp_def ngt lt] kr "1.prems"
        show ?thesis unfolding eq by auto
      next
        case nlt: False
        have eq: "binarySearch_loop ar el m n = k"
          using True ngt nlt by (simp add: binarySearch_loop.simps [of ar el m n] k_def cmp_def Let_def)
        from kr show ?thesis unfolding eq by simp
      qed
    qed
  qed
qed

lemma binarySearch_range:
  "- int (length ar) - 1 \<le> binarySearch ar el \<and> binarySearch ar el < int (length ar)"
  using binarySearch_loop_range [of 0 "int (length ar) - 1" ar el]
  by (auto simp: binarySearch_def)

lemma splice_is_slice:
  "\<exists>s n. s + n \<le> length xs \<and> splice xs start cnt = take n (drop s xs)"
proof -
  define len where "len = int (length xs)"
  define a where "a = (if start < 0 then max (len + start) 0 else min start len)"
  define d where "d = min (max cnt 0) (len - a)"
  have a: "0 \<le> a" "a \<le> len" by (auto simp: a_def len_def)
  then have d: "0 \<le> d" "a + d \<le> len" by (auto simp: d_def)
  have "splice xs start cnt = take (nat d) (drop (nat a) xs)"
    by (simp add: splice_def Let_def a_def d_def len_def)
  moreover have "nat a + nat d \<le> length xs" using a d by (simp add: len_def)
  ultimately show ?thesis by blast
qed

text \<open>
  C7 says that the resolved window satisfies \<open>0 \<le> startPos \<le> endPos + 1 \<le> len\<close> for every
  sorted key list and every range. \<open>parseBounds\<close> searches \<open>upperBound\<close> for \<open>start\<close> as it
  does for \<open>end\<close> (the slip of C1). For every sorted key list without duplicates and
  every forward range with \<open>gt\<close> and an \<open>lt\<close> that is one of the keys, at index \<open>i\<close>, it
  returns \<open>start = i + 1\<close> and \<open>end = i - 1\<close>: \<open>startPos\<close> exceeds \<open>endPos + 1\<close>.
\<close>

theorem forward_gt_lt_positions_cross:
  assumes "sorted keys" and "distinct keys" and "\<not> opt_reverse opts"
    and "has (opt_gt opts)" and "opt_lte opts = None" and "opt_lt opts = Some y"
    and "y \<in> set keys"
  shows "b_start (parseBounds keys opts) = b_end (parseBounds keys opts) + 2
       \<and> \<not> (b_start (parseBounds keys opts) \<le> b_end (parseBounds keys opts) + 1)"
proof -
  from binarySearch_finds_key [OF assms(1,2,7)]
  obtain i where i: "i < length keys" "binarySearch keys (Key y) = int i" by auto
  have "b_start (parseBounds keys opts) = int i + 1"
    using assms(3,4,5,6) i by (simp add: parseBounds_def pick_def Let_def)
  moreover have "b_end (parseBounds keys opts) = int i - 1"
    using assms(3,4,5,6) i by (simp add: parseBounds_def pick_def Let_def has_def)
  ultimately show ?thesis by simp
qed

text \<open>
  The failing input: the sorted keys \<open>a\<close> to \<open>e\<close> and \<open>{gt: 'a', lt: 'c'}\<close>, for which
  \<open>start = 3\<close> and \<open>end = 1\<close>.
\<close>

theorem forward_gt_lt_positions_witness:
  "b_start (parseBounds five_keys (no_range\<lparr>opt_gt := Some ''a'', opt_lt := Some ''c''\<rparr>)) = 3
   \<and> b_end (parseBounds five_keys (no_range\<lparr>opt_gt := Some ''a'', opt_lt := Some ''c''\<rparr>)) = 1"
proof -
  let ?o = "no_range\<lparr>opt_gt := Some ''a'', opt_lt := Some ''c''\<rparr>"
  have h: "sorted five_keys" "distinct five_keys" "\<not> opt_reverse ?o" "has (opt_gt ?o)"
    "opt_lte ?o = None" "opt_lt ?o = Some ''c''" "''c'' \<in> set five_keys"
    by (simp_all add: five_keys_def no_range_def has_def)
  have e: "b_end (parseBounds five_keys ?o) = 1" by code_simp
  from conjunct1 [OF forward_gt_lt_positions_cross [OF h]] e show ?thesis by simp
qed

text \<open>
  For \<open>{lte: 'zzz'}\<close>, a bound above every key, the insertion point \<open>5\<close> is decoded one
  too far for \<open>start\<close> (\<open>-start\<close>) and taken as it is for \<open>end\<close> (\<open>-end - 1\<close>): both
  positions lie beyond the last index \<open>4\<close>.
\<close>

lemma end_beyond_snapshot:
  "b_end (parseBounds five_keys (no_range\<lparr>opt_lte := Some ''zzz''\<rparr>)) = 5
   \<and> b_start (parseBounds five_keys (no_range\<lparr>opt_lte := Some ''zzz''\<rparr>)) = 6"
  by code_simp

text \<open>
  What \<open>kInit\<close> keeps is \<open>keys.splice (start, end - start + 1)\<close>, and a splice is always
  a contiguous slice of the array it is taken from.
\<close>

lemma kInit_window:
  assumes "ls_result c = Inr entries"
  shows "kIndexKeys (fst (kInit batchSize opts c))
           = splice (sort entries) (b_start (parseBounds (sort entries) opts))
               (b_end (parseBounds (sort entries) opts) - b_start (parseBounds (sort entries) opts) + 1)"
  using assms by (simp add: kInit_def cacache_ls_def Let_def)

end
